theory Spec2Isabelle
  imports Complex_Main "HOL-Library.Char_ord" "HOL-Library.List_Lexorder" "HOL-Library.Multiset"
begin

section \<open>Strings\<close>

text \<open>
  A Python \<open>str\<close> is modelled as a \<open>string\<close> whose characters are the code points
  0..255. On that range \<open>str.lower\<close> maps A..Z and the Latin-1 capitals (0xC0..0xDE
  without 0xD7) to the character 32 places later and leaves every other character alone,
  and the only characters matched by the regular expression class \<open>\d\<close> are 0..9.
\<close>

definition lower_char :: "char \<Rightarrow> char" where
  "lower_char c =
     (let n = (of_char c :: nat)
      in if (65 \<le> n \<and> n \<le> 90) \<or> (192 \<le> n \<and> n \<le> 222 \<and> n \<noteq> 215)
         then char_of (n + 32) else c)"

definition lower :: "string \<Rightarrow> string" where
  "lower s = map lower_char s"

text \<open>\<open>s.startswith(p)\<close>.\<close>

definition startswith :: "string \<Rightarrow> string \<Rightarrow> bool" where
  "startswith s p = (take (length p) s = p)"

text \<open>\<open>sub in s\<close> on strings: \<open>sub\<close> occurs in \<open>s\<close> as a contiguous block.\<close>

fun contains :: "string \<Rightarrow> string \<Rightarrow> bool" where
  "contains [] sub = (sub = [])"
| "contains (c # cs) sub = (startswith (c # cs) sub \<or> contains cs sub)"

section \<open>Exceptions\<close>

text \<open>
  Exceptions carry their class and their message (\<open>str(error)\<close>). The classes are the
  ones the adapters tell apart: the vendor libraries' \<open>RateLimitError\<close> and
  \<open>AuthenticationError\<close>, \<open>APIError\<close> for every other error derived from the
  libraries' \<open>APIError\<close>, Python's \<open>IndexError\<close> and \<open>ValueError\<close>, and
  \<open>OtherException\<close> for anything else.
\<close>

datatype exn_class =
  RateLimitError | AuthenticationError | APIError | IndexError | ValueError | OtherException

datatype exn = Exn (cls: exn_class) (msg: string)

section \<open>The model-option parser (\<open>AnthropicProvider._parse_model_with_thinking_tokens\<close>)\<close>

text \<open>
  The source matches the model string against \<open>^(.*?):(\d+)([km])?$\<close> with
  \<open>re.match\<close>. The three functions below are that match, written out:
  \<^item> \<open>match_suffix\<close> is \<open>(\d+)([km])?$\<close> on the text after a colon. The digits are
    taken greedily (giving one back leaves a digit that neither \<open>[km]\<close> nor \<open>$\<close>
    accepts), and \<open>$\<close> holds at the end of the string or before a line feed that is the
    last character.
  \<^item> \<open>match_from\<close> is the lazy group \<open>(.*?)\<close> followed by the colon: at each position
    the rest of the pattern is tried first, and only when it fails does the group take
    one more character, which must not be a line feed (\<open>.\<close> excludes it).
\<close>

definition is_digit :: "char \<Rightarrow> bool" where
  "is_digit c = (CHR ''0'' \<le> c \<and> c \<le> CHR ''9'')"

definition at_end :: "string \<Rightarrow> bool" where
  "at_end r = (r = [] \<or> r = [CHR 0x0A])"

definition match_suffix :: "string \<Rightarrow> (string \<times> char option) option" where
  "match_suffix s =
     (let ds = takeWhile is_digit s; r = dropWhile is_digit s
      in if ds = [] then None
         else (case r of
                 [] \<Rightarrow> Some (ds, None)
               | u # r' \<Rightarrow>
                   if (u = CHR ''k'' \<or> u = CHR ''m'') \<and> at_end r' then Some (ds, Some u)
                   else if at_end r then Some (ds, None)
                   else None))"

fun match_from :: "string \<Rightarrow> string \<Rightarrow> (string \<times> string \<times> char option) option" where
  "match_from pre [] = None"
| "match_from pre (c # cs) =
     (case (if c = CHR '':'' then match_suffix cs else None) of
        Some (ds, u) \<Rightarrow> Some (pre, ds, u)
      | None \<Rightarrow> if c = CHR 0x0A then None else match_from (pre @ [c]) cs)"

definition re_match :: "string \<Rightarrow> (string \<times> string \<times> char option) option" where
  "re_match model = match_from [] model"

text \<open>
  \<open>int(s)\<close> on a string of decimal digits. Python's integers are unbounded, but
  \<open>int\<close> refuses a string of more digits than the interpreter's limit
  (\<open>sys.get_int_max_str_digits()\<close>, 4300 unless configured otherwise; leading zeros
  count) with a \<open>ValueError\<close> whose message names the limit and the number of digits.
  \<open>digits_value\<close> is the number a digit string denotes; \<open>str_nat\<close> is \<open>str\<close> on a
  natural number.
\<close>

definition int_max_str_digits :: nat where
  "int_max_str_digits = 4300"

fun str_nat :: "nat \<Rightarrow> string" where
  "str_nat n =
     (if n < 10 then [char_of (48 + n)]
      else str_nat (n div 10) @ [char_of (48 + n mod 10)])"

definition digit_val :: "char \<Rightarrow> int" where
  "digit_val c = int (of_char c) - 48"

definition digits_value :: "string \<Rightarrow> int" where
  "digits_value s = foldl (\<lambda>acc c. 10 * acc + digit_val c) 0 s"

definition int_of_digits :: "string \<Rightarrow> exn + int" where
  "int_of_digits s =
     (if int_max_str_digits < length s
      then Inl (Exn ValueError
                 (''Exceeds the limit ('' @ str_nat int_max_str_digits
                  @ '' digits) for integer string conversion: value has ''
                  @ str_nat (length s)
                  @ '' digits; use sys.set_int_max_str_digits() to increase the limit''))
      else Inr (digits_value s))"

text \<open>
  The parser returns its pair, or raises what \<open>int\<close> raises: the source has no
  \<open>try\<close> of its own.
\<close>

definition parse_model_with_thinking_tokens :: "string \<Rightarrow> exn + string \<times> int option" where
  "parse_model_with_thinking_tokens model =
     (case re_match model of
        None \<Rightarrow> Inr (model, None)
      | Some (base_model, digits, unit) \<Rightarrow>
          (case int_of_digits digits of
             Inl e \<Rightarrow> Inl e
           | Inr token_value \<Rightarrow>
               Inr (base_model,
                    Some (if unit = Some (CHR ''k'') then token_value * 1024
                          else if unit = Some (CHR ''m'') then token_value * (1024 * 1024)
                          else token_value))))"

text \<open>
  What the source's pattern accepts after a colon, said without the matching procedure:
  one or more digits, then an optional unit \<open>k\<close> or \<open>m\<close>, then the end of the string
  or one line feed that ends the string (Python's \<open>$\<close> accepts both).
\<close>

definition option_suffix :: "string \<Rightarrow> bool" where
  "option_suffix r =
     (takeWhile is_digit r \<noteq> [] \<and>
      dropWhile is_digit r \<in> {[], ''k'', ''m'', [CHR 0x0A], [CHR ''k'', CHR 0x0A], [CHR ''m'', CHR 0x0A]})"

section \<open>Shared data types (\<open>atoms/shared/data_types.py\<close>)\<close>

datatype Provider = OPENAI | ANTHROPIC | GEMINI | GROQ | DEEPSEEK | OLLAMA

definition prefix_map :: "(string \<times> Provider) list" where
  "prefix_map =
     [(''o'', OPENAI), (''openai'', OPENAI),
      (''a'', ANTHROPIC), (''anthropic'', ANTHROPIC),
      (''g'', GEMINI), (''gemini'', GEMINI),
      (''q'', GROQ), (''groq'', GROQ),
      (''d'', DEEPSEEK), (''deepseek'', DEEPSEEK),
      (''l'', OLLAMA), (''ollama'', OLLAMA)]"

definition from_prefix :: "string \<Rightarrow> exn + Provider" where
  "from_prefix prefix =
     (case map_of prefix_map (lower prefix) of
        None \<Rightarrow> Inl (Exn ValueError (''Unknown provider prefix: '' @ prefix))
      | Some p \<Rightarrow> Inr p)"

record PromptResponse =
  pr_model :: string
  pr_content :: string
  pr_tokens :: "int option"

section \<open>The vendor, the world and the result of a call\<close>

text \<open>
  A vendor call returns a response or raises. The vendor is a deterministic stub: what it
  does depends on how many calls it has received before and on the request. The world
  records what an adapter does besides returning: the requests it sent to the vendor's
  generation endpoint, the arguments of its \<open>time.sleep\<close> calls, and the number of
  calls to the vendor's model listing.
\<close>

datatype 'r outcome = Returns 'r | Raises exn

type_synonym ('q, 'r) vendor = "nat \<Rightarrow> 'q \<Rightarrow> 'r outcome"

record 'q world =
  requests :: "'q list"
  sleeps :: "nat list"
  list_calls :: nat

text \<open>
  \<open>generate\<close> and \<open>_handle_error\<close> call each other with no bound that survives the
  call (each \<open>generate\<close> passes \<open>retry_count=0\<close>), so they are given fuel: the number
  of \<open>generate\<close> calls that may still be entered. \<open>Finished\<close> is a call that returned
  or raised; \<open>Running\<close> is a call that has used up the fuel and would enter
  \<open>generate\<close> once more, with the world as it is at that moment.

  \<open>_handle_error\<close> is declared to return \<open>Any\<close>: it passes on what \<open>generate\<close>
  returns, also when \<open>list_models\<close> calls it. \<open>py_value\<close> is the values concerned.
\<close>

datatype py_value = Response PromptResponse | Models "string list"

datatype 'q run = Finished "exn + py_value" "'q world" | Running "'q world"

definition max_retries :: nat where
  "max_retries = 3"

text \<open>\<open>isinstance(error, APIError)\<close>: the rate-limit and authentication errors of both
  vendor libraries are derived from their \<open>APIError\<close>.\<close>

definition isinstance_APIError :: "exn \<Rightarrow> bool" where
  "isinstance_APIError error = (cls error \<in> {RateLimitError, AuthenticationError, APIError})"

text \<open>
  \<open>prompt = kwargs.get("prompt"); model = kwargs.get("model"); if prompt and model\<close>:
  both keyword arguments were given and neither is the empty string.
\<close>

definition retry_context :: "string option \<Rightarrow> string option \<Rightarrow> (string \<times> string) option" where
  "retry_context prompt model =
     (case (prompt, model) of
        (Some p, Some m) \<Rightarrow> if p \<noteq> [] \<and> m \<noteq> [] then Some (p, m) else None
      | _ \<Rightarrow> None)"

fun run_world :: "'q run \<Rightarrow> 'q world" where
  "run_world (Finished r w) = w"
| "run_world (Running w) = w"

definition world0 :: "'q world" where
  "world0 = \<lparr>requests = [], sleeps = [], list_calls = 0\<rparr>"


section \<open>The Anthropic adapter (\<open>atoms/llm_providers/anthropic.py\<close>)\<close>

record a_request =
  a_model :: string
  a_max_tokens :: int
  a_messages :: "(string \<times> string) list"
  a_thinking_tokens :: "int option"

text \<open>The response: the texts of its content blocks, and the input and output token
  counts when it has a \<open>usage\<close> attribute.\<close>

record a_response =
  a_content :: "string list"
  a_usage :: "(int \<times> int) option"

definition anthropic_list_models :: "'q world \<Rightarrow> 'q run" where
  "anthropic_list_models w =
     Finished (Inr (Models
       [''claude-3-opus-20240229'',
        ''claude-3-sonnet-20240229'',
        ''claude-3-haiku-20240307'',
        ''claude-3-7-sonnet-20250219'',
        ''claude-2.1'',
        ''claude-2.0'',
        ''claude-instant-1.2''])) w"

text \<open>
  The request built by \<open>generate\<close>, or the error the parser raises;
  \<open>if thinking_tokens:\<close> is false for \<open>None\<close> and for 0.
\<close>

definition message_params :: "string \<Rightarrow> string \<Rightarrow> exn + a_request" where
  "message_params prompt model =
     (case parse_model_with_thinking_tokens model of
        Inl e \<Rightarrow> Inl e
      | Inr (base_model, thinking_tokens) \<Rightarrow>
          Inr \<lparr>a_model = base_model, a_max_tokens = 1024, a_messages = [(''user'', prompt)],
               a_thinking_tokens =
                 (case thinking_tokens of
                    None \<Rightarrow> None
                  | Some t \<Rightarrow> if t \<noteq> 0 then Some t else None)\<rparr>)"

text \<open>
  The whole body of \<open>generate\<close> is inside its \<open>try\<close>: an error of the parser is
  handed to \<open>_handle_error\<close> like an error of the vendor call, with no request sent.
\<close>

fun anthropic_generate ::
    "nat \<Rightarrow> (a_request, a_response) vendor \<Rightarrow> string \<Rightarrow> string \<Rightarrow> a_request world \<Rightarrow> a_request run"
  and anthropic_handle_error ::
    "nat \<Rightarrow> (a_request, a_response) vendor \<Rightarrow> exn \<Rightarrow> nat \<Rightarrow> string option \<Rightarrow> string option
       \<Rightarrow> a_request world \<Rightarrow> a_request run"
where
  "anthropic_generate 0 v prompt model w = Running w"
| "anthropic_generate (Suc n) v prompt model w =
     (case message_params prompt model of
        Inl e \<Rightarrow> anthropic_handle_error n v e 0 (Some prompt) (Some model) w
      | Inr params \<Rightarrow>
          (case v (length (requests w)) params of
             Raises e \<Rightarrow>
               anthropic_handle_error n v e 0 (Some prompt) (Some model)
                 (w\<lparr>requests := requests w @ [params]\<rparr>)
           | Returns response \<Rightarrow>
               (case a_content response of
                  [] \<Rightarrow>
                    anthropic_handle_error n v (Exn IndexError ''list index out of range'') 0
                      (Some prompt) (Some model)
                      (w\<lparr>requests := requests w @ [params]\<rparr>)
                | text # _ \<Rightarrow>
                    Finished
                      (Inr (Response \<lparr>pr_model = model, pr_content = text,
                                      pr_tokens = map_option (\<lambda>(i, out). i + out) (a_usage response)\<rparr>))
                      (w\<lparr>requests := requests w @ [params]\<rparr>))))"
| "anthropic_handle_error n v error retry_count prompt model w =
     (if cls error = RateLimitError \<and> retry_count < max_retries then
        (case retry_context prompt model of
           Some (p, m) \<Rightarrow> anthropic_generate n v p m (w\<lparr>sleeps := sleeps w @ [2 ^ retry_count]\<rparr>)
         | None \<Rightarrow> Finished (Inl error) (w\<lparr>sleeps := sleeps w @ [2 ^ retry_count]\<rparr>))
      else if cls error = AuthenticationError then
        Finished (Inl (Exn ValueError (''Anthropic API key is invalid: '' @ msg error))) w
      else if isinstance_APIError error then
        (if retry_count < max_retries then
           (case retry_context prompt model of
              Some (p, m) \<Rightarrow> anthropic_generate n v p m (w\<lparr>sleeps := sleeps w @ [1]\<rparr>)
            | None \<Rightarrow>
                Finished (Inl (Exn ValueError (''Anthropic API error: '' @ msg error)))
                  (w\<lparr>sleeps := sleeps w @ [1]\<rparr>))
         else Finished (Inl (Exn ValueError (''Anthropic API error: '' @ msg error))) w)
      else
        Finished (Inl (Exn ValueError (''Error occurred when calling Anthropic API: '' @ msg error))) w)"


section \<open>The OpenAI adapter (\<open>atoms/llm_providers/openai.py\<close>)\<close>

text \<open>
  The two vendor endpoints of \<open>generate\<close>, with their keyword arguments. The literal
  \<open>0.7\<close> is only passed on, so it is kept as the fraction it denotes.
\<close>

datatype o_request =
  ChatCompletionsCreate (o_model: string) (o_messages: "(string \<times> string) list")
    (o_temperature: rat) (o_max_tokens: int)
| CompletionsCreate (o_model: string) (o_prompt: string)
    (o_temperature: rat) (o_max_tokens: int)

text \<open>The response: the text of each choice (\<open>message.content\<close> of a chat completion,
  \<open>text\<close> of a completion), and \<open>usage.total_tokens\<close> when there is a \<open>usage\<close>.\<close>

record o_response =
  o_choices :: "string list"
  o_usage :: "int option"

definition openai_request :: "string \<Rightarrow> string \<Rightarrow> o_request" where
  "openai_request prompt model =
     (if startswith model ''gpt-''
      then ChatCompletionsCreate model [(''user'', prompt)] (7 / 10) 1024
      else CompletionsCreate model prompt (7 / 10) 1024)"

fun openai_generate ::
    "nat \<Rightarrow> (o_request, o_response) vendor \<Rightarrow> string \<Rightarrow> string \<Rightarrow> o_request world \<Rightarrow> o_request run"
  and openai_handle_error ::
    "nat \<Rightarrow> (o_request, o_response) vendor \<Rightarrow> exn \<Rightarrow> nat \<Rightarrow> string option \<Rightarrow> string option
       \<Rightarrow> o_request world \<Rightarrow> o_request run"
where
  "openai_generate 0 v prompt model w = Running w"
| "openai_generate (Suc n) v prompt model w =
     (case v (length (requests w)) (openai_request prompt model) of
        Raises e \<Rightarrow>
          openai_handle_error n v e 0 (Some prompt) (Some model)
            (w\<lparr>requests := requests w @ [openai_request prompt model]\<rparr>)
      | Returns response \<Rightarrow>
          (case o_choices response of
             [] \<Rightarrow>
               openai_handle_error n v (Exn IndexError ''list index out of range'') 0
                 (Some prompt) (Some model)
                 (w\<lparr>requests := requests w @ [openai_request prompt model]\<rparr>)
           | text # _ \<Rightarrow>
               Finished
                 (Inr (Response \<lparr>pr_model = model, pr_content = text,
                                 pr_tokens = o_usage response\<rparr>))
                 (w\<lparr>requests := requests w @ [openai_request prompt model]\<rparr>)))"
| "openai_handle_error n v error retry_count prompt model w =
     (if cls error = RateLimitError \<and> retry_count < max_retries then
        (case retry_context prompt model of
           Some (p, m) \<Rightarrow> openai_generate n v p m (w\<lparr>sleeps := sleeps w @ [2 ^ retry_count]\<rparr>)
         | None \<Rightarrow> Finished (Inl error) (w\<lparr>sleeps := sleeps w @ [2 ^ retry_count]\<rparr>))
      else if cls error = AuthenticationError then
        Finished (Inl (Exn ValueError (''OpenAI API key is invalid: '' @ msg error))) w
      else if isinstance_APIError error then
        (if retry_count < max_retries then
           (case retry_context prompt model of
              Some (p, m) \<Rightarrow> openai_generate n v p m (w\<lparr>sleeps := sleeps w @ [1]\<rparr>)
            | None \<Rightarrow>
                Finished (Inl (Exn ValueError (''OpenAI API error: '' @ msg error)))
                  (w\<lparr>sleeps := sleeps w @ [1]\<rparr>))
         else Finished (Inl (Exn ValueError (''OpenAI API error: '' @ msg error))) w)
      else
        Finished (Inl (Exn ValueError (''Error occurred when calling OpenAI API: '' @ msg error))) w)"

text \<open>
  \<open>list_models\<close>: the vendor's listing returns the model identifiers or raises. On an
  error \<open>_handle_error(e)\<close> is called with no keyword arguments, so it never reaches
  \<open>generate\<close> and the fuel it is given does not matter.
\<close>




section \<open>The Gemini adapter (\<open>atoms/llm_providers/gemini.py\<close>)\<close>

record generation_config =
  temperature :: rat
  top_p :: rat
  top_k :: int
  max_output_tokens :: int

text \<open>Building the \<open>GenerativeModel\<close> and calling \<open>generate_content\<close> on it are one
  vendor call, with the arguments of both.\<close>

record g_request =
  g_model_name :: string
  g_generation_config :: generation_config
  g_prompt :: string

text \<open>
  The response: its \<open>text\<close> attribute when it has one, \<open>usage_metadata.total_token_count\<close>
  when it has \<open>usage_metadata\<close>, its candidates (of each, the texts of the parts of its
  content, when it has a content), and its string representation.
\<close>

record g_response =
  g_text :: "string option"
  g_usage_metadata :: "int option"
  g_candidates :: "string list option list"
  g_str :: string

definition gemini_request :: "string \<Rightarrow> string \<Rightarrow> g_request" where
  "gemini_request prompt model =
     \<lparr>g_model_name = model,
      g_generation_config =
        \<lparr>temperature = 7 / 10, top_p = 95 / 100, top_k = 40, max_output_tokens = 2048\<rparr>,
      g_prompt = prompt\<rparr>"

definition extract_text_from_response :: "g_response \<Rightarrow> exn + string" where
  "extract_text_from_response response =
     (case g_candidates response of
        [] \<Rightarrow> Inr (g_str response)
      | candidate # _ \<Rightarrow>
          (case candidate of
             None \<Rightarrow> Inr (g_str response)
           | Some parts \<Rightarrow>
               (case parts of
                  [] \<Rightarrow> Inl (Exn IndexError ''list index out of range'')
                | text # _ \<Rightarrow> Inr text)))"

definition response_content :: "g_response \<Rightarrow> exn + string" where
  "response_content response =
     (case g_text response of
        Some text \<Rightarrow> Inr text
      | None \<Rightarrow> extract_text_from_response response)"

text \<open>
  In \<open>_handle_error\<close> the class of the error plays no part: the three tests read
  \<open>str(error).lower()\<close>. The third test,
  \<open>retry_count < max_retries and kwargs.get("prompt") and kwargs.get("model")\<close>, is the
  \<open>case\<close> on the retry context below; where it fails the final \<open>else\<close> raises.
\<close>

fun gemini_generate ::
    "nat \<Rightarrow> (g_request, g_response) vendor \<Rightarrow> string \<Rightarrow> string \<Rightarrow> g_request world \<Rightarrow> g_request run"
  and gemini_handle_error ::
    "nat \<Rightarrow> (g_request, g_response) vendor \<Rightarrow> exn \<Rightarrow> nat \<Rightarrow> string option \<Rightarrow> string option
       \<Rightarrow> g_request world \<Rightarrow> g_request run"
where
  "gemini_generate 0 v prompt model w = Running w"
| "gemini_generate (Suc n) v prompt model w =
     (case v (length (requests w)) (gemini_request prompt model) of
        Raises e \<Rightarrow>
          gemini_handle_error n v e 0 (Some prompt) (Some model)
            (w\<lparr>requests := requests w @ [gemini_request prompt model]\<rparr>)
      | Returns response \<Rightarrow>
          (case response_content response of
             Inl e \<Rightarrow>
               gemini_handle_error n v e 0 (Some prompt) (Some model)
                 (w\<lparr>requests := requests w @ [gemini_request prompt model]\<rparr>)
           | Inr text \<Rightarrow>
               Finished
                 (Inr (Response \<lparr>pr_model = model, pr_content = text,
                                 pr_tokens = g_usage_metadata response\<rparr>))
                 (w\<lparr>requests := requests w @ [gemini_request prompt model]\<rparr>)))"
| "gemini_handle_error n v error retry_count prompt model w =
     (if contains (lower (msg error)) ''quota'' \<and> retry_count < max_retries then
        (case retry_context prompt model of
           Some (p, m) \<Rightarrow> gemini_generate n v p m (w\<lparr>sleeps := sleeps w @ [2 ^ retry_count]\<rparr>)
         | None \<Rightarrow> Finished (Inl error) (w\<lparr>sleeps := sleeps w @ [2 ^ retry_count]\<rparr>))
      else if contains (lower (msg error)) ''authentication''
              \<or> contains (lower (msg error)) ''api key'' then
        Finished (Inl (Exn ValueError (''Google Gemini API key is invalid: '' @ msg error))) w
      else
        (case (if retry_count < max_retries then retry_context prompt model else None) of
           Some (p, m) \<Rightarrow> gemini_generate n v p m (w\<lparr>sleeps := sleeps w @ [1]\<rparr>)
         | None \<Rightarrow>
             Finished
               (Inl (Exn ValueError (''Error occurred when calling Google Gemini API: '' @ msg error)))
               w))"


section \<open>Properties of the model-option parser\<close>

declare str_nat.simps [simp del]

lemma not_digit_special:
  "\<not> is_digit (CHR '':'')" "\<not> is_digit (CHR ''k'')" "\<not> is_digit (CHR ''m'')"
  "\<not> is_digit (CHR 0x0A)" "\<not> is_digit (CHR ''K'')" "\<not> is_digit (CHR ''M'')"
  by (simp_all add: is_digit_def)

lemma takeWhile_digits:
  assumes "\<forall>c\<in>set ds. is_digit c" "t = [] \<or> \<not> is_digit (hd t)"
  shows "takeWhile is_digit (ds @ t) = ds" and "dropWhile is_digit (ds @ t) = t"
proof -
  have a: "takeWhile is_digit t = []" and b: "dropWhile is_digit t = t"
    using assms(2) by (cases t; simp)+
  show "takeWhile is_digit (ds @ t) = ds"
    using assms(1) a by (simp add: takeWhile_append2)
  show "dropWhile is_digit (ds @ t) = t"
    using assms(1) b by (simp add: dropWhile_append2)
qed

lemma match_suffix_app:
  assumes "\<forall>c\<in>set ds. is_digit c" "t = [] \<or> \<not> is_digit (hd t)"
  shows "match_suffix (ds @ t) =
     (if ds = [] then None
      else (case t of [] \<Rightarrow> Some (ds, None)
            | u # r' \<Rightarrow> if (u = CHR ''k'' \<or> u = CHR ''m'') \<and> at_end r' then Some (ds, Some u)
                        else if at_end t then Some (ds, None) else None))"
  unfolding match_suffix_def Let_def takeWhile_digits [OF assms] by (rule refl)

lemma match_suffix_digits:
  assumes "ds \<noteq> []" "\<forall>c\<in>set ds. is_digit c"
  shows "match_suffix ds = Some (ds, None)"
    and "match_suffix (ds @ ''k'') = Some (ds, Some (CHR ''k''))"
    and "match_suffix (ds @ ''m'') = Some (ds, Some (CHR ''m''))"
    and "match_suffix (ds @ ''K'') = None"
    and "match_suffix (ds @ ''M'') = None"
proof -
  show "match_suffix ds = Some (ds, None)"
    using match_suffix_app [OF assms(2), of "[]"] assms(1) by simp
  show "match_suffix (ds @ ''k'') = Some (ds, Some (CHR ''k''))"
    using match_suffix_app [OF assms(2), of "''k''"] assms(1) not_digit_special
    by (simp add: at_end_def)
  show "match_suffix (ds @ ''m'') = Some (ds, Some (CHR ''m''))"
    using match_suffix_app [OF assms(2), of "''m''"] assms(1) not_digit_special
    by (simp add: at_end_def)
  show "match_suffix (ds @ ''K'') = None"
    using match_suffix_app [OF assms(2), of "''K''"] assms(1) not_digit_special
    by (simp add: at_end_def)
  show "match_suffix (ds @ ''M'') = None"
    using match_suffix_app [OF assms(2), of "''M''"] assms(1) not_digit_special
    by (simp add: at_end_def)
qed

lemma match_suffix_shape:
  assumes "match_suffix s = Some (ds, u)"
  shows "ds \<noteq> [] \<and> (\<forall>c\<in>set ds. is_digit c) \<and>
         (\<exists>t. s = ds @ t \<and> t \<in> {[], ''k'', ''m'', [CHR 0x0A], [CHR ''k'', CHR 0x0A], [CHR ''m'', CHR 0x0A]})"
proof -
  define ds' where "ds' = takeWhile is_digit s"
  define r where "r = dropWhile is_digit s"
  have ms: "match_suffix s =
     (if ds' = [] then None
      else (case r of [] \<Rightarrow> Some (ds', None)
            | u # r' \<Rightarrow> if (u = CHR ''k'' \<or> u = CHR ''m'') \<and> at_end r' then Some (ds', Some u)
                        else if at_end r then Some (ds', None) else None))"
    unfolding match_suffix_def Let_def ds'_def r_def by (rule refl)
  from assms ms have a: "ds' \<noteq> []" by (cases "ds' = []") simp_all
  from assms ms a have b: "ds = ds'" by (cases r) (simp_all split: if_splits)
  from assms ms a have c: "r \<in> {[], ''k'', ''m'', [CHR 0x0A], [CHR ''k'', CHR 0x0A], [CHR ''m'', CHR 0x0A]}"
    by (cases r) (auto simp: at_end_def split: if_splits)
  have d: "\<forall>c\<in>set ds'. is_digit c" unfolding ds'_def by (auto dest: set_takeWhileD)
  have e: "s = ds' @ r" by (simp add: ds'_def r_def)
  show ?thesis using a b c d e by blast
qed

lemma match_suffix_no_colon:
  assumes "match_suffix s = Some r"
  shows "CHR '':'' \<notin> set s"
proof -
  obtain ds u where "r = (ds, u)" by (cases r)
  with assms have "match_suffix s = Some (ds, u)" by simp
  from match_suffix_shape [OF this] obtain t where
    ds: "\<forall>c\<in>set ds. is_digit c" and s: "s = ds @ t"
    and t: "t \<in> {[], ''k'', ''m'', [CHR 0x0A], [CHR ''k'', CHR 0x0A], [CHR ''m'', CHR 0x0A]}"
    by blast
  have "CHR '':'' \<notin> set ds" using ds not_digit_special(1) by blast
  moreover have "CHR '':'' \<notin> set t" using t by auto
  ultimately show ?thesis using s by simp
qed

lemma match_from_found:
  assumes "CHR 0x0A \<notin> set name" "match_suffix r = Some (ds, u)"
  shows "match_from pre (name @ CHR '':'' # r) = Some (pre @ name, ds, u)"
  using assms
proof (induction name arbitrary: pre)
  case Nil
  then show ?case by simp
next
  case (Cons c name)
  have "match_suffix (name @ CHR '':'' # r) = None"
  proof (cases "match_suffix (name @ CHR '':'' # r)")
    case (Some x)
    from match_suffix_no_colon [OF this] show ?thesis by simp
  qed simp
  moreover have "c \<noteq> CHR 0x0A" using Cons.prems by auto
  moreover have "match_from (pre @ [c]) (name @ CHR '':'' # r) = Some ((pre @ [c]) @ name, ds, u)"
    using Cons.IH Cons.prems by auto
  ultimately show ?case by (cases "c = CHR '':''") simp_all
qed

lemma match_from_Some:
  assumes "match_from pre s = Some (b, ds, u)"
  shows "\<exists>p r. s = p @ CHR '':'' # r \<and> b = pre @ p \<and> match_suffix r = Some (ds, u) \<and> CHR 0x0A \<notin> set p"
  using assms
proof (induction s arbitrary: pre)
  case Nil
  then show ?case by simp
next
  case (Cons c cs)
  show ?case
  proof (cases "c = CHR '':'' \<and> match_suffix cs \<noteq> None")
    case True
    with Cons.prems have "b = pre" "match_suffix cs = Some (ds, u)" by auto
    with True have "c # cs = [] @ CHR '':'' # cs \<and> b = pre @ [] \<and> match_suffix cs = Some (ds, u) \<and> CHR 0x0A \<notin> set []"
      by simp
    then show ?thesis by blast
  next
    case False
    with Cons.prems have nl: "c \<noteq> CHR 0x0A" and rec: "match_from (pre @ [c]) cs = Some (b, ds, u)"
      by (auto split: if_splits option.splits)
    from Cons.IH [OF rec] obtain p r where
      "cs = p @ CHR '':'' # r" "b = (pre @ [c]) @ p" "match_suffix r = Some (ds, u)" "CHR 0x0A \<notin> set p"
      by blast
    with nl have "c # cs = (c # p) @ CHR '':'' # r \<and> b = pre @ (c # p) \<and> match_suffix r = Some (ds, u) \<and> CHR 0x0A \<notin> set (c # p)"
      by simp
    then show ?thesis by blast
  qed
qed

lemma match_from_None:
  assumes "\<And>p r. s = p @ CHR '':'' # r \<Longrightarrow> match_suffix r = None"
  shows "match_from pre s = None"
proof (cases "match_from pre s")
  case (Some x)
  obtain b ds u where "x = (b, ds, u)" by (cases x)
  with Some match_from_Some obtain p r where "s = p @ CHR '':'' # r" "match_suffix r = Some (ds, u)"
    by blast
  with assms show ?thesis by fastforce
qed simp


lemma match_suffix_None_iff: "match_suffix r = None \<longleftrightarrow> \<not> option_suffix r"
proof
  assume n: "match_suffix r = None"
  show "\<not> option_suffix r"
  proof
    assume "option_suffix r"
    then have a: "takeWhile is_digit r \<noteq> []"
      and b: "dropWhile is_digit r \<in> {[], ''k'', ''m'', [CHR 0x0A], [CHR ''k'', CHR 0x0A], [CHR ''m'', CHR 0x0A]}"
      by (simp_all add: option_suffix_def)
    from b a have "match_suffix r \<noteq> None"
      unfolding match_suffix_def Let_def by (auto simp: at_end_def split: list.splits)
    with n show False by simp
  qed
next
  assume no: "\<not> option_suffix r"
  show "match_suffix r = None"
  proof (cases "match_suffix r")
    case (Some x)
    obtain ds u where "x = (ds, u)" by (cases x)
    with Some have "match_suffix r = Some (ds, u)" by simp
    from match_suffix_shape [OF this] obtain t where
      ds: "ds \<noteq> []" "\<forall>c\<in>set ds. is_digit c" and r: "r = ds @ t"
      and t: "t \<in> {[], ''k'', ''m'', [CHR 0x0A], [CHR ''k'', CHR 0x0A], [CHR ''m'', CHR 0x0A]}"
      by blast
    from t have "t = [] \<or> \<not> is_digit (hd t)" using not_digit_special by auto
    from takeWhile_digits [OF ds(2) this] ds(1) t r have "option_suffix r"
      by (simp add: option_suffix_def)
    with no show ?thesis by simp
  qed simp
qed

text \<open>\<open>option_suffix\<close> with its three parts named: the digits, the unit, the final
  line feed.\<close>

lemma option_suffix_iff:
  "option_suffix r \<longleftrightarrow>
     (\<exists>ds u nl. r = ds @ u @ nl \<and> ds \<noteq> [] \<and> list_all is_digit ds \<and>
        u \<in> {[], ''k'', ''m''} \<and> nl \<in> {[], [CHR 0x0A]})"
proof
  define ds where "ds = takeWhile is_digit r"
  define t where "t = dropWhile is_digit r"
  assume "option_suffix r"
  then have a: "ds \<noteq> []"
    and b: "t \<in> {[], ''k'', ''m'', [CHR 0x0A], [CHR ''k'', CHR 0x0A], [CHR ''m'', CHR 0x0A]}"
    by (simp_all add: option_suffix_def ds_def t_def)
  have c: "list_all is_digit ds"
    unfolding ds_def list_all_iff by (blast dest: set_takeWhileD)
  have r: "r = ds @ t" by (simp add: ds_def t_def)
  have "\<exists>u nl. t = u @ nl \<and> u \<in> {[], ''k'', ''m''} \<and> nl \<in> {[], [CHR 0x0A]}"
  proof -
    have "t = [] @ [] \<or> t = ''k'' @ [] \<or> t = ''m'' @ [] \<or> t = [] @ [CHR 0x0A]
           \<or> t = ''k'' @ [CHR 0x0A] \<or> t = ''m'' @ [CHR 0x0A]"
      using b by simp
    then show ?thesis
      by (elim disjE) (rule exI, rule exI, rule conjI, assumption, simp)+
  qed
  then obtain u nl where "t = u @ nl" "u \<in> {[], ''k'', ''m''}" "nl \<in> {[], [CHR 0x0A]}"
    by (elim exE conjE)
  with r a c have "r = ds @ u @ nl \<and> ds \<noteq> [] \<and> list_all is_digit ds \<and>
        u \<in> {[], ''k'', ''m''} \<and> nl \<in> {[], [CHR 0x0A]}"
    by (simp only: simp_thms)
  then show "\<exists>ds u nl. r = ds @ u @ nl \<and> ds \<noteq> [] \<and> list_all is_digit ds \<and>
        u \<in> {[], ''k'', ''m''} \<and> nl \<in> {[], [CHR 0x0A]}"
    by (intro exI)
next
  assume "\<exists>ds u nl. r = ds @ u @ nl \<and> ds \<noteq> [] \<and> list_all is_digit ds \<and>
        u \<in> {[], ''k'', ''m''} \<and> nl \<in> {[], [CHR 0x0A]}"
  then obtain ds u nl where r: "r = ds @ u @ nl" and ds: "ds \<noteq> []" "list_all is_digit ds"
    and u: "u \<in> {[], ''k'', ''m''}" and nl: "nl \<in> {[], [CHR 0x0A]}"
    by (elim exE conjE)
  from ds(2) have dd: "\<forall>c\<in>set ds. is_digit c" by (simp add: list_all_iff)
  from u nl have t: "u @ nl \<in> {[], ''k'', ''m'', [CHR 0x0A], [CHR ''k'', CHR 0x0A], [CHR ''m'', CHR 0x0A]}"
    by auto
  then have "u @ nl = [] \<or> \<not> is_digit (hd (u @ nl))"
    using not_digit_special by (elim insertE emptyE) simp_all
  from takeWhile_digits [OF dd this] have
    "takeWhile is_digit (ds @ u @ nl) = ds" "dropWhile is_digit (ds @ u @ nl) = u @ nl"
    by simp_all
  with ds(1) t show "option_suffix r"
    unfolding r option_suffix_def by (simp only: simp_thms)
qed

lemma split_last_colon:
  assumes "p @ CHR '':'' # r = p' @ CHR '':'' # r'" "CHR '':'' \<notin> set r"
  shows "r' = r \<or> CHR '':'' \<in> set r'"
proof -
  from assms(1) obtain us where
    "(p = p' @ us \<and> us @ CHR '':'' # r = CHR '':'' # r') \<or> (p @ us = p' \<and> CHR '':'' # r = us @ CHR '':'' # r')"
    by (auto simp: append_eq_append_conv2)
  then show ?thesis
  proof
    assume a: "p = p' @ us \<and> us @ CHR '':'' # r = CHR '':'' # r'"
    show ?thesis
    proof (cases us)
      case Nil
      with a show ?thesis by simp
    next
      case (Cons u us')
      with a have "r' = us' @ CHR '':'' # r" by simp
      then show ?thesis by simp
    qed
  next
    assume a: "p @ us = p' \<and> CHR '':'' # r = us @ CHR '':'' # r'"
    show ?thesis
    proof (cases us)
      case Nil
      with a show ?thesis by simp
    next
      case (Cons u us')
      with a have "r = us' @ CHR '':'' # r'" by simp
      with assms(2) show ?thesis by simp
    qed
  qed
qed



lemma int_of_digits_long:
  "4300 < length ds \<Longrightarrow>
   int_of_digits ds
     = Inl (Exn ValueError
             (''Exceeds the limit (4300 digits) for integer string conversion: value has ''
              @ str_nat (length ds)
              @ '' digits; use sys.set_int_max_str_digits() to increase the limit''))"
proof -
  assume l: "4300 < length ds"
  have s: "str_nat 4300 = ''4300''" by code_simp
  show ?thesis
    using l by (simp add: int_of_digits_def int_max_str_digits_def s)
qed

text \<open>A string that the pattern does not match is returned whole, with no option:
  a string with no colon, or one whose last colon is not followed by what
  \<open>option_suffix\<close> describes.\<close>

lemma parse_without_suffix:
  assumes "CHR '':'' \<notin> set s \<or>
           (\<exists>p r. s = p @ '':'' @ r \<and> CHR '':'' \<notin> set r \<and> \<not> option_suffix r)"
  shows "parse_model_with_thinking_tokens s = Inr (s, None)"
proof -
  have "match_from [] s = None"
  proof (rule match_from_None)
    fix p' r' assume s: "s = p' @ CHR '':'' # r'"
    then have "CHR '':'' \<in> set s" by simp
    with assms obtain p r where pr: "s = p @ '':'' @ r" "CHR '':'' \<notin> set r" "\<not> option_suffix r"
      by blast
    from pr(1) s have "p @ CHR '':'' # r = p' @ CHR '':'' # r'" by simp
    from split_last_colon [OF this pr(2)] show "match_suffix r' = None"
    proof
      assume "r' = r"
      with pr(3) show ?thesis by (simp add: match_suffix_None_iff)
    next
      assume c: "CHR '':'' \<in> set r'"
      show ?thesis
      proof (cases "match_suffix r'")
        case (Some x)
        from match_suffix_no_colon [OF this] c show ?thesis by simp
      qed simp
    qed
  qed
  then show ?thesis by (simp add: parse_model_with_thinking_tokens_def re_match_def)
qed




text \<open>
  C4 (the code departs from the claim). The claim: the parser never raises, and a string
  whose last colon is not followed by digits and an optional unit at the end of the string
  comes back whole, with no option. The code, on two such strings: for digits followed
  by a final line feed the pattern's \<open>$\<close> still matches, and the string is split, the
  line feed lost; for a suffix of 4301 digits the pattern matches and \<open>int\<close> raises
  a \<open>ValueError\<close>, which the parser lets through.
\<close>

theorem parse_splits_before_line_feed_and_raises:
  "parse_model_with_thinking_tokens (''m'' @ '':'' @ ''4'' @ [CHR 0x0A]) = Inr (''m'', Some 4) \<and>
   parse_model_with_thinking_tokens (''m'' @ '':'' @ replicate 4301 (CHR ''1''))
     = Inl (Exn ValueError
             ''Exceeds the limit (4300 digits) for integer string conversion: value has 4301 digits; use sys.set_int_max_str_digits() to increase the limit'')"
proof -
  have a: "parse_model_with_thinking_tokens (''m'' @ '':'' @ ''4'' @ [CHR 0x0A]) = Inr (''m'', Some 4)"
    by code_simp
  let ?ds = "replicate 4301 (CHR ''1'')"
  have ne: "?ds \<noteq> []" by simp
  have dg: "\<forall>c\<in>set ?ds. is_digit c" by (simp add: is_digit_def)
  have nl: "CHR 0x0A \<notin> set ''m''" by simp
  have "re_match (''m'' @ '':'' @ ?ds) = Some (''m'', ?ds, None)"
    using match_from_found [OF nl match_suffix_digits(1) [OF ne dg], of "[]"]
    by (simp add: re_match_def)
  moreover have "int_of_digits ?ds
     = Inl (Exn ValueError
             (''Exceeds the limit (4300 digits) for integer string conversion: value has ''
              @ str_nat (length ?ds)
              @ '' digits; use sys.set_int_max_str_digits() to increase the limit''))"
    by (rule int_of_digits_long) simp
  moreover have "str_nat (length ?ds) = ''4301''"
  proof -
    have "str_nat 4301 = ''4301''" by code_simp
    then show ?thesis by simp
  qed
  ultimately have b: "parse_model_with_thinking_tokens (''m'' @ '':'' @ ?ds)
     = Inl (Exn ValueError
             ''Exceeds the limit (4300 digits) for integer string conversion: value has 4301 digits; use sys.set_int_max_str_digits() to increase the limit'')"
    by (simp add: parse_model_with_thinking_tokens_def)
  from a b show ?thesis by (rule conjI)
qed

section \<open>Properties of the adapters\<close>

declare anthropic_handle_error.simps [simp del]
declare openai_handle_error.simps [simp del]
declare gemini_handle_error.simps [simp del]

lemma retry_context_Some:
  "retry_context (Some p) (Some m) = (if p \<noteq> [] \<and> m \<noteq> [] then Some (p, m) else None)"
  by (simp add: retry_context_def)



subsection \<open>Anthropic\<close>

lemma anthropic_handle_error_cases:
  "(\<exists>e' s. anthropic_handle_error n v e rc (Some p) (Some m) w
             = Finished (Inl e') (w\<lparr>sleeps := sleeps w @ s\<rparr>))
   \<or> (\<exists>d. anthropic_handle_error n v e rc (Some p) (Some m) w
             = anthropic_generate n v p m (w\<lparr>sleeps := sleeps w @ [d]\<rparr>))"
proof -
  have fin0: "\<And>e'. \<exists>e'' s. Finished (Inl e') w = Finished (Inl e'') (w\<lparr>sleeps := sleeps w @ s\<rparr>)"
  proof -
    fix e'
    have "Finished (Inl e') w = Finished (Inl e') (w\<lparr>sleeps := sleeps w @ []\<rparr>)" by simp
    then show "\<exists>e'' s. Finished (Inl e') w = Finished (Inl e'') (w\<lparr>sleeps := sleeps w @ s\<rparr>)"
      by blast
  qed
  show ?thesis
    using fin0 by (auto simp: anthropic_handle_error.simps retry_context_Some)
qed

lemma anthropic_generate_model:
  "anthropic_generate n v prompt model w = Finished (Inr val) w'
   \<Longrightarrow> \<exists>r. val = Response r \<and> pr_model r = model"
proof (induction n arbitrary: w)
  case 0
  then show ?case by simp
next
  case (Suc n)
  have he: "\<And>e w1. anthropic_handle_error n v e 0 (Some prompt) (Some model) w1 = Finished (Inr val) w'
            \<Longrightarrow> ?case"
  proof -
    fix e w1
    assume a: "anthropic_handle_error n v e 0 (Some prompt) (Some model) w1 = Finished (Inr val) w'"
    from anthropic_handle_error_cases [of n v e 0 prompt model w1] a
    obtain d where "anthropic_generate n v prompt model (w1\<lparr>sleeps := sleeps w1 @ [d]\<rparr>) = Finished (Inr val) w'"
      by auto
    then show ?case by (rule Suc.IH)
  qed
  show ?case
  proof (cases "message_params prompt model")
    case (Inl e)
    with Suc.prems he show ?thesis by simp
  next
    case (Inr params)
    show ?thesis
    proof (cases "v (length (requests w)) params")
      case (Raises e)
      with Inr Suc.prems he show ?thesis by simp
    next
      case (Returns response)
      show ?thesis
      proof (cases "a_content response")
        case Nil
        with Inr Returns Suc.prems he show ?thesis by simp
      next
        case (Cons t rest)
        with Inr Returns Suc.prems show ?thesis by auto
      qed
    qed
  qed
qed

lemma anthropic_generate_requests:
  assumes mp: "message_params prompt model = Inr params"
  shows "\<exists>k\<le>n. (0 < n \<longrightarrow> 0 < k) \<and>
     requests (run_world (anthropic_generate n v prompt model w))
       = requests w @ replicate k params"
proof (induction n arbitrary: w)
  case 0
  then show ?case by simp
next
  case (Suc n)
  let ?r = "params"
  let ?w1 = "w\<lparr>requests := requests w @ [?r]\<rparr>"
  let ?P = "\<lambda>x. \<exists>k\<le>Suc n. (0 < Suc n \<longrightarrow> 0 < k) \<and> requests (run_world x) = requests w @ replicate k ?r"
  have one: "\<And>res s. ?P (Finished res (?w1\<lparr>sleeps := sleeps ?w1 @ s\<rparr>))"
  proof -
    fix res :: "exn + py_value" and s :: "nat list"
    have "requests (run_world (Finished res (?w1\<lparr>sleeps := sleeps ?w1 @ s\<rparr>))) = requests w @ replicate 1 ?r"
      by simp
    then show "?P (Finished res (?w1\<lparr>sleeps := sleeps ?w1 @ s\<rparr>))"
      by (intro exI [of _ 1]) simp
  qed
  have he: "\<And>e. ?P (anthropic_handle_error n v e 0 (Some prompt) (Some model) ?w1)"
  proof -
    fix e
    from anthropic_handle_error_cases [of n v e 0 prompt model ?w1]
    show "?P (anthropic_handle_error n v e 0 (Some prompt) (Some model) ?w1)"
    proof
      assume "\<exists>e' s. anthropic_handle_error n v e 0 (Some prompt) (Some model) ?w1
                 = Finished (Inl e') (?w1\<lparr>sleeps := sleeps ?w1 @ s\<rparr>)"
      then show ?thesis using one by auto
    next
      assume "\<exists>d. anthropic_handle_error n v e 0 (Some prompt) (Some model) ?w1
                 = anthropic_generate n v prompt model (?w1\<lparr>sleeps := sleeps ?w1 @ [d]\<rparr>)"
      then obtain d where d: "anthropic_handle_error n v e 0 (Some prompt) (Some model) ?w1
                 = anthropic_generate n v prompt model (?w1\<lparr>sleeps := sleeps ?w1 @ [d]\<rparr>)"
        by blast
      from Suc.IH [of "?w1\<lparr>sleeps := sleeps ?w1 @ [d]\<rparr>"] obtain k where
        k: "k \<le> n" "requests (run_world (anthropic_generate n v prompt model (?w1\<lparr>sleeps := sleeps ?w1 @ [d]\<rparr>)))
              = requests (?w1\<lparr>sleeps := sleeps ?w1 @ [d]\<rparr>) @ replicate k ?r"
        by blast
      have "requests (run_world (anthropic_handle_error n v e 0 (Some prompt) (Some model) ?w1))
              = requests w @ replicate (Suc k) ?r"
        using d k(2) by simp
      with k(1) show ?thesis by (intro exI [of _ "Suc k"]) simp
    qed
  qed
  have fin: "\<And>res. ?P (Finished res ?w1)"
  proof -
    fix res :: "exn + py_value"
    have "requests (run_world (Finished res ?w1)) = requests w @ replicate 1 ?r" by simp
    then show "?P (Finished res ?w1)" by (intro exI [of _ 1]) simp
  qed
  show ?case
  proof (cases "v (length (requests w)) ?r")
    case (Raises e)
    with mp he [of e] show ?thesis by simp
  next
    case (Returns response)
    show ?thesis
    proof (cases "a_content response")
      case Nil
      with mp Returns he [of "Exn IndexError ''list index out of range''"] show ?thesis by simp
    next
      case (Cons t rest)
      with mp Returns fin show ?thesis by simp
    qed
  qed
qed

lemma anthropic_retries_forever:
  assumes "message_params prompt model = Inr params"
    and "\<And>k q. v k q = Raises e" "cls e = APIError" "prompt \<noteq> []" "model \<noteq> []"
  shows "anthropic_generate n v prompt model w
    = Running (w\<lparr>requests := requests w @ replicate n params,
                 sleeps := sleeps w @ replicate n 1\<rparr>)"
proof (induction n arbitrary: w)
  case 0
  then show ?case by simp
next
  case (Suc n)
  let ?w2 = "w\<lparr>requests := requests w @ [params], sleeps := sleeps w @ [1]\<rparr>"
  have "anthropic_generate (Suc n) v prompt model w = anthropic_generate n v prompt model ?w2"
    using assms
    by (simp add: anthropic_handle_error.simps retry_context_Some isinstance_APIError_def max_retries_def)
  also have "\<dots> = Running (?w2\<lparr>requests := requests ?w2 @ replicate n params,
                 sleeps := sleeps ?w2 @ replicate n 1\<rparr>)"
    by (rule Suc.IH)
  also have "\<dots> = Running (w\<lparr>requests := requests w @ replicate (Suc n) params,
                 sleeps := sleeps w @ replicate (Suc n) 1\<rparr>)"
    by simp
  finally show ?case .
qed

lemma anthropic_auth_error:
  assumes "message_params prompt model = Inr params"
    and "v (length (requests w)) params = Raises e"
    and "cls e = AuthenticationError"
  shows "anthropic_generate (Suc n) v prompt model w
    = Finished (Inl (Exn ValueError (''Anthropic API key is invalid: '' @ msg e)))
        (w\<lparr>requests := requests w @ [params]\<rparr>)"
  using assms by (simp add: anthropic_handle_error.simps)

lemma anthropic_other_error:
  assumes "message_params prompt model = Inr params"
    and "v (length (requests w)) params = Raises e"
    and "cls e \<notin> {RateLimitError, AuthenticationError, APIError}"
  shows "anthropic_generate (Suc n) v prompt model w
    = Finished (Inl (Exn ValueError (''Error occurred when calling Anthropic API: '' @ msg e)))
        (w\<lparr>requests := requests w @ [params]\<rparr>)"
  using assms by (simp add: anthropic_handle_error.simps isinstance_APIError_def)

text \<open>An error of the parser ends the call with no request sent and no wait.\<close>

lemma anthropic_parse_error:
  assumes "parse_model_with_thinking_tokens model = Inl e" and "cls e = ValueError"
  shows "anthropic_generate (Suc n) v prompt model w
    = Finished (Inl (Exn ValueError (''Error occurred when calling Anthropic API: '' @ msg e))) w"
  using assms
  by (simp add: message_params_def anthropic_handle_error.simps isinstance_APIError_def)

text \<open>The request for a model string that the parser returns whole.\<close>

lemma message_params_plain:
  assumes "CHR '':'' \<notin> set model"
  shows "message_params prompt model
    = Inr \<lparr>a_model = model, a_max_tokens = 1024, a_messages = [(''user'', prompt)],
           a_thinking_tokens = None\<rparr>"
  using parse_without_suffix [of model] assms by (simp add: message_params_def)

subsection \<open>OpenAI\<close>

lemma openai_handle_error_cases:
  "(\<exists>e' s. openai_handle_error n v e rc (Some p) (Some m) w
             = Finished (Inl e') (w\<lparr>sleeps := sleeps w @ s\<rparr>))
   \<or> (\<exists>d. openai_handle_error n v e rc (Some p) (Some m) w
             = openai_generate n v p m (w\<lparr>sleeps := sleeps w @ [d]\<rparr>))"
proof -
  have fin0: "\<And>e'. \<exists>e'' s. Finished (Inl e') w = Finished (Inl e'') (w\<lparr>sleeps := sleeps w @ s\<rparr>)"
  proof -
    fix e'
    have "Finished (Inl e') w = Finished (Inl e') (w\<lparr>sleeps := sleeps w @ []\<rparr>)" by simp
    then show "\<exists>e'' s. Finished (Inl e') w = Finished (Inl e'') (w\<lparr>sleeps := sleeps w @ s\<rparr>)"
      by blast
  qed
  show ?thesis
    using fin0 by (auto simp: openai_handle_error.simps retry_context_Some)
qed

lemma openai_generate_model:
  "openai_generate n v prompt model w = Finished (Inr val) w'
   \<Longrightarrow> \<exists>r. val = Response r \<and> pr_model r = model"
proof (induction n arbitrary: w)
  case 0
  then show ?case by simp
next
  case (Suc n)
  let ?w1 = "w\<lparr>requests := requests w @ [openai_request prompt model]\<rparr>"
  have he: "\<And>e. openai_handle_error n v e 0 (Some prompt) (Some model) ?w1 = Finished (Inr val) w'
            \<Longrightarrow> ?case"
  proof -
    fix e assume a: "openai_handle_error n v e 0 (Some prompt) (Some model) ?w1 = Finished (Inr val) w'"
    from openai_handle_error_cases [of n v e 0 prompt model ?w1] a
    obtain d where "openai_generate n v prompt model (?w1\<lparr>sleeps := sleeps ?w1 @ [d]\<rparr>) = Finished (Inr val) w'"
      by auto
    then show ?case by (rule Suc.IH)
  qed
  show ?case
  proof (cases "v (length (requests w)) (openai_request prompt model)")
    case (Raises e)
    with Suc.prems he show ?thesis by simp
  next
    case (Returns response)
    show ?thesis
    proof (cases "o_choices response")
      case Nil
      with Returns Suc.prems he show ?thesis by simp
    next
      case (Cons t rest)
      with Returns Suc.prems show ?thesis by auto
    qed
  qed
qed


lemma openai_generate_requests:
  "\<exists>k\<le>n. (0 < n \<longrightarrow> 0 < k) \<and>
     requests (run_world (openai_generate n v prompt model w))
       = requests w @ replicate k (openai_request prompt model)"
proof (induction n arbitrary: w)
  case 0
  then show ?case by simp
next
  case (Suc n)
  let ?r = "openai_request prompt model"
  let ?w1 = "w\<lparr>requests := requests w @ [?r]\<rparr>"
  let ?P = "\<lambda>x. \<exists>k\<le>Suc n. (0 < Suc n \<longrightarrow> 0 < k) \<and> requests (run_world x) = requests w @ replicate k ?r"
  have one: "\<And>res s. ?P (Finished res (?w1\<lparr>sleeps := sleeps ?w1 @ s\<rparr>))"
  proof -
    fix res :: "exn + py_value" and s :: "nat list"
    have "requests (run_world (Finished res (?w1\<lparr>sleeps := sleeps ?w1 @ s\<rparr>))) = requests w @ replicate 1 ?r"
      by simp
    then show "?P (Finished res (?w1\<lparr>sleeps := sleeps ?w1 @ s\<rparr>))"
      by (intro exI [of _ 1]) simp
  qed
  have he: "\<And>e. ?P (openai_handle_error n v e 0 (Some prompt) (Some model) ?w1)"
  proof -
    fix e
    from openai_handle_error_cases [of n v e 0 prompt model ?w1]
    show "?P (openai_handle_error n v e 0 (Some prompt) (Some model) ?w1)"
    proof
      assume "\<exists>e' s. openai_handle_error n v e 0 (Some prompt) (Some model) ?w1
                 = Finished (Inl e') (?w1\<lparr>sleeps := sleeps ?w1 @ s\<rparr>)"
      then show ?thesis using one by auto
    next
      assume "\<exists>d. openai_handle_error n v e 0 (Some prompt) (Some model) ?w1
                 = openai_generate n v prompt model (?w1\<lparr>sleeps := sleeps ?w1 @ [d]\<rparr>)"
      then obtain d where d: "openai_handle_error n v e 0 (Some prompt) (Some model) ?w1
                 = openai_generate n v prompt model (?w1\<lparr>sleeps := sleeps ?w1 @ [d]\<rparr>)"
        by blast
      from Suc.IH [of "?w1\<lparr>sleeps := sleeps ?w1 @ [d]\<rparr>"] obtain k where
        k: "k \<le> n" "requests (run_world (openai_generate n v prompt model (?w1\<lparr>sleeps := sleeps ?w1 @ [d]\<rparr>)))
              = requests (?w1\<lparr>sleeps := sleeps ?w1 @ [d]\<rparr>) @ replicate k ?r"
        by blast
      have "requests (run_world (openai_handle_error n v e 0 (Some prompt) (Some model) ?w1))
              = requests w @ replicate (Suc k) ?r"
        using d k(2) by simp
      with k(1) show ?thesis by (intro exI [of _ "Suc k"]) simp
    qed
  qed
  have fin: "\<And>res. ?P (Finished res ?w1)"
  proof -
    fix res :: "exn + py_value"
    have "requests (run_world (Finished res ?w1)) = requests w @ replicate 1 ?r" by simp
    then show "?P (Finished res ?w1)" by (intro exI [of _ 1]) simp
  qed
  show ?case
  proof (cases "v (length (requests w)) ?r")
    case (Raises e)
    with he [of e] show ?thesis by simp
  next
    case (Returns response)
    show ?thesis
    proof (cases "o_choices response")
      case Nil
      with Returns he [of "Exn IndexError ''list index out of range''"] show ?thesis by simp
    next
      case (Cons t rest)
      with Returns fin show ?thesis by simp
    qed
  qed
qed

lemma openai_retries_forever:
  assumes "\<And>k q. v k q = Raises e" "cls e = APIError" "prompt \<noteq> []" "model \<noteq> []"
  shows "openai_generate n v prompt model w
    = Running (w\<lparr>requests := requests w @ replicate n (openai_request prompt model),
                 sleeps := sleeps w @ replicate n 1\<rparr>)"
proof (induction n arbitrary: w)
  case 0
  then show ?case by simp
next
  case (Suc n)
  let ?r = "openai_request prompt model"
  let ?w2 = "w\<lparr>requests := requests w @ [?r], sleeps := sleeps w @ [1]\<rparr>"
  have "openai_generate (Suc n) v prompt model w = openai_generate n v prompt model ?w2"
    using assms
    by (simp add: openai_handle_error.simps retry_context_Some isinstance_APIError_def max_retries_def)
  also have "\<dots> = Running (?w2\<lparr>requests := requests ?w2 @ replicate n ?r,
                 sleeps := sleeps ?w2 @ replicate n 1\<rparr>)"
    by (rule Suc.IH)
  also have "\<dots> = Running (w\<lparr>requests := requests w @ replicate (Suc n) ?r,
                 sleeps := sleeps w @ replicate (Suc n) 1\<rparr>)"
    by simp
  finally show ?case .
qed

lemma openai_auth_error:
  assumes "v (length (requests w)) (openai_request prompt model) = Raises e"
    and "cls e = AuthenticationError"
  shows "openai_generate (Suc n) v prompt model w
    = Finished (Inl (Exn ValueError (''OpenAI API key is invalid: '' @ msg e)))
        (w\<lparr>requests := requests w @ [openai_request prompt model]\<rparr>)"
  using assms by (simp add: openai_handle_error.simps)

lemma openai_other_error:
  assumes "v (length (requests w)) (openai_request prompt model) = Raises e"
    and "cls e \<notin> {RateLimitError, AuthenticationError, APIError}"
  shows "openai_generate (Suc n) v prompt model w
    = Finished (Inl (Exn ValueError (''Error occurred when calling OpenAI API: '' @ msg e)))
        (w\<lparr>requests := requests w @ [openai_request prompt model]\<rparr>)"
  using assms by (simp add: openai_handle_error.simps isinstance_APIError_def)

subsection \<open>Gemini\<close>

lemma gemini_handle_error_cases:
  "(\<exists>e' s. gemini_handle_error n v e rc (Some p) (Some m) w
             = Finished (Inl e') (w\<lparr>sleeps := sleeps w @ s\<rparr>))
   \<or> (\<exists>d. gemini_handle_error n v e rc (Some p) (Some m) w
             = gemini_generate n v p m (w\<lparr>sleeps := sleeps w @ [d]\<rparr>))"
proof -
  have fin0: "\<And>e'. \<exists>e'' s. Finished (Inl e') w = Finished (Inl e'') (w\<lparr>sleeps := sleeps w @ s\<rparr>)"
  proof -
    fix e'
    have "Finished (Inl e') w = Finished (Inl e') (w\<lparr>sleeps := sleeps w @ []\<rparr>)" by simp
    then show "\<exists>e'' s. Finished (Inl e') w = Finished (Inl e'') (w\<lparr>sleeps := sleeps w @ s\<rparr>)"
      by blast
  qed
  show ?thesis
    using fin0 by (auto simp: gemini_handle_error.simps retry_context_Some)
qed

lemma gemini_generate_model:
  "gemini_generate n v prompt model w = Finished (Inr val) w'
   \<Longrightarrow> \<exists>r. val = Response r \<and> pr_model r = model"
proof (induction n arbitrary: w)
  case 0
  then show ?case by simp
next
  case (Suc n)
  let ?w1 = "w\<lparr>requests := requests w @ [gemini_request prompt model]\<rparr>"
  have he: "\<And>e. gemini_handle_error n v e 0 (Some prompt) (Some model) ?w1 = Finished (Inr val) w'
            \<Longrightarrow> ?case"
  proof -
    fix e assume a: "gemini_handle_error n v e 0 (Some prompt) (Some model) ?w1 = Finished (Inr val) w'"
    from gemini_handle_error_cases [of n v e 0 prompt model ?w1] a
    obtain d where "gemini_generate n v prompt model (?w1\<lparr>sleeps := sleeps ?w1 @ [d]\<rparr>) = Finished (Inr val) w'"
      by auto
    then show ?case by (rule Suc.IH)
  qed
  show ?case
  proof (cases "v (length (requests w)) (gemini_request prompt model)")
    case (Raises e)
    with Suc.prems he show ?thesis by simp
  next
    case (Returns response)
    show ?thesis
    proof (cases "response_content response")
      case (Inl e)
      with Returns Suc.prems he show ?thesis by simp
    next
      case (Inr t)
      with Returns Suc.prems show ?thesis by auto
    qed
  qed
qed


lemma gemini_generate_requests:
  "\<exists>k\<le>n. (0 < n \<longrightarrow> 0 < k) \<and>
     requests (run_world (gemini_generate n v prompt model w))
       = requests w @ replicate k (gemini_request prompt model)"
proof (induction n arbitrary: w)
  case 0
  then show ?case by simp
next
  case (Suc n)
  let ?r = "gemini_request prompt model"
  let ?w1 = "w\<lparr>requests := requests w @ [?r]\<rparr>"
  let ?P = "\<lambda>x. \<exists>k\<le>Suc n. (0 < Suc n \<longrightarrow> 0 < k) \<and> requests (run_world x) = requests w @ replicate k ?r"
  have one: "\<And>res s. ?P (Finished res (?w1\<lparr>sleeps := sleeps ?w1 @ s\<rparr>))"
  proof -
    fix res :: "exn + py_value" and s :: "nat list"
    have "requests (run_world (Finished res (?w1\<lparr>sleeps := sleeps ?w1 @ s\<rparr>))) = requests w @ replicate 1 ?r"
      by simp
    then show "?P (Finished res (?w1\<lparr>sleeps := sleeps ?w1 @ s\<rparr>))"
      by (intro exI [of _ 1]) simp
  qed
  have he: "\<And>e. ?P (gemini_handle_error n v e 0 (Some prompt) (Some model) ?w1)"
  proof -
    fix e
    from gemini_handle_error_cases [of n v e 0 prompt model ?w1]
    show "?P (gemini_handle_error n v e 0 (Some prompt) (Some model) ?w1)"
    proof
      assume "\<exists>e' s. gemini_handle_error n v e 0 (Some prompt) (Some model) ?w1
                 = Finished (Inl e') (?w1\<lparr>sleeps := sleeps ?w1 @ s\<rparr>)"
      then show ?thesis using one by auto
    next
      assume "\<exists>d. gemini_handle_error n v e 0 (Some prompt) (Some model) ?w1
                 = gemini_generate n v prompt model (?w1\<lparr>sleeps := sleeps ?w1 @ [d]\<rparr>)"
      then obtain d where d: "gemini_handle_error n v e 0 (Some prompt) (Some model) ?w1
                 = gemini_generate n v prompt model (?w1\<lparr>sleeps := sleeps ?w1 @ [d]\<rparr>)"
        by blast
      from Suc.IH [of "?w1\<lparr>sleeps := sleeps ?w1 @ [d]\<rparr>"] obtain k where
        k: "k \<le> n" "requests (run_world (gemini_generate n v prompt model (?w1\<lparr>sleeps := sleeps ?w1 @ [d]\<rparr>)))
              = requests (?w1\<lparr>sleeps := sleeps ?w1 @ [d]\<rparr>) @ replicate k ?r"
        by blast
      have "requests (run_world (gemini_handle_error n v e 0 (Some prompt) (Some model) ?w1))
              = requests w @ replicate (Suc k) ?r"
        using d k(2) by simp
      with k(1) show ?thesis by (intro exI [of _ "Suc k"]) simp
    qed
  qed
  have fin: "\<And>res. ?P (Finished res ?w1)"
  proof -
    fix res :: "exn + py_value"
    have "requests (run_world (Finished res ?w1)) = requests w @ replicate 1 ?r" by simp
    then show "?P (Finished res ?w1)" by (intro exI [of _ 1]) simp
  qed
  show ?case
  proof (cases "v (length (requests w)) ?r")
    case (Raises e)
    with he [of e] show ?thesis by simp
  next
    case (Returns response)
    show ?thesis
    proof (cases "response_content response")
      case (Inl e)
      with Returns he [of e] show ?thesis by simp
    next
      case (Inr t)
      with Returns fin show ?thesis by simp
    qed
  qed
qed

lemma gemini_retries_forever:
  assumes "\<And>k q. v k q = Raises e" "prompt \<noteq> []" "model \<noteq> []"
    and "\<not> contains (lower (msg e)) ''quota''"
    and "\<not> contains (lower (msg e)) ''authentication''"
    and "\<not> contains (lower (msg e)) ''api key''"
  shows "gemini_generate n v prompt model w
    = Running (w\<lparr>requests := requests w @ replicate n (gemini_request prompt model),
                 sleeps := sleeps w @ replicate n 1\<rparr>)"
proof (induction n arbitrary: w)
  case 0
  then show ?case by simp
next
  case (Suc n)
  let ?r = "gemini_request prompt model"
  let ?w2 = "w\<lparr>requests := requests w @ [?r], sleeps := sleeps w @ [1]\<rparr>"
  have "gemini_generate (Suc n) v prompt model w = gemini_generate n v prompt model ?w2"
    using assms
    by (simp add: gemini_handle_error.simps retry_context_Some max_retries_def)
  also have "\<dots> = Running (?w2\<lparr>requests := requests ?w2 @ replicate n ?r,
                 sleeps := sleeps ?w2 @ replicate n 1\<rparr>)"
    by (rule Suc.IH)
  also have "\<dots> = Running (w\<lparr>requests := requests w @ replicate (Suc n) ?r,
                 sleeps := sleeps w @ replicate (Suc n) 1\<rparr>)"
    by simp
  finally show ?case .
qed

lemma gemini_auth_error:
  assumes "v (length (requests w)) (gemini_request prompt model) = Raises e"
    and "\<not> contains (lower (msg e)) ''quota''"
    and "contains (lower (msg e)) ''authentication'' \<or> contains (lower (msg e)) ''api key''"
  shows "gemini_generate (Suc n) v prompt model w
    = Finished (Inl (Exn ValueError (''Google Gemini API key is invalid: '' @ msg e)))
        (w\<lparr>requests := requests w @ [gemini_request prompt model]\<rparr>)"
  using assms by (simp add: gemini_handle_error.simps)

lemma gemini_other_error:
  assumes "v (length (requests w)) (gemini_request prompt model) = Raises e"
    and "\<not> contains (lower (msg e)) ''quota''"
    and "\<not> contains (lower (msg e)) ''authentication''"
    and "\<not> contains (lower (msg e)) ''api key''"
  shows "gemini_generate (Suc n) v prompt model w
    = (if prompt \<noteq> [] \<and> model \<noteq> []
       then gemini_generate n v prompt model
              (w\<lparr>requests := requests w @ [gemini_request prompt model], sleeps := sleeps w @ [1]\<rparr>)
       else Finished
              (Inl (Exn ValueError (''Error occurred when calling Google Gemini API: '' @ msg e)))
              (w\<lparr>requests := requests w @ [gemini_request prompt model]\<rparr>))"
  using assms by (simp add: gemini_handle_error.simps retry_context_Some max_retries_def)

subsection \<open>Single steps of \<open>generate\<close>\<close>

lemma anthropic_generate_success:
  assumes "message_params p m = Inr params"
    and "v (length (requests w)) params = Returns resp"
    and "a_content resp = t # ts"
  shows "anthropic_generate (Suc n) v p m w
    = Finished
        (Inr (Response \<lparr>pr_model = m, pr_content = t,
                        pr_tokens = map_option (\<lambda>(i, out). i + out) (a_usage resp)\<rparr>))
        (w\<lparr>requests := requests w @ [params]\<rparr>)"
  using assms by simp

lemma anthropic_rate_limit_retry:
  assumes "message_params p m = Inr params"
    and "v (length (requests w)) params = Raises e"
    and "cls e = RateLimitError" and "p \<noteq> []" and "m \<noteq> []"
  shows "anthropic_generate (Suc n) v p m w
    = anthropic_generate n v p m
        (w\<lparr>requests := requests w @ [params], sleeps := sleeps w @ [1]\<rparr>)"
  using assms
  by (simp add: anthropic_handle_error.simps retry_context_Some max_retries_def)

lemma openai_generate_success:
  assumes "v (length (requests w)) (openai_request p m) = Returns resp"
    and "o_choices resp = t # ts"
  shows "openai_generate (Suc n) v p m w
    = Finished
        (Inr (Response \<lparr>pr_model = m, pr_content = t, pr_tokens = o_usage resp\<rparr>))
        (w\<lparr>requests := requests w @ [openai_request p m]\<rparr>)"
  using assms by simp

lemma gemini_generate_success:
  assumes "v (length (requests w)) (gemini_request p m) = Returns resp"
    and "response_content resp = Inr t"
  shows "gemini_generate (Suc n) v p m w
    = Finished
        (Inr (Response \<lparr>pr_model = m, pr_content = t, pr_tokens = g_usage_metadata resp\<rparr>))
        (w\<lparr>requests := requests w @ [gemini_request p m]\<rparr>)"
  using assms by simp

lemma gemini_quota_retry:
  assumes "v (length (requests w)) (gemini_request p m) = Raises e"
    and "contains (lower (msg e)) ''quota''" and "p \<noteq> []" and "m \<noteq> []"
  shows "gemini_generate (Suc n) v p m w
    = gemini_generate n v p m
        (w\<lparr>requests := requests w @ [gemini_request p m], sleeps := sleeps w @ [1]\<rparr>)"
  using assms
  by (simp add: gemini_handle_error.simps retry_context_Some max_retries_def)


section \<open>The claims about the provider registry and the model listings\<close>

text \<open>
  C7. \<open>Provider.from_prefix\<close> is case-insensitive and total over its fixed table: a prefix
  whose lowercase form is a documented short code or full name gives the documented
  provider, two prefixes with the same lowercase form give the same provider, and any
  other prefix raises a \<open>ValueError\<close> whose message ends with the prefix as it was given.
\<close>

theorem from_prefix_table:
  "(lower p \<in> {''o'', ''openai''} \<longrightarrow> from_prefix p = Inr OPENAI) \<and>
   (lower p \<in> {''a'', ''anthropic''} \<longrightarrow> from_prefix p = Inr ANTHROPIC) \<and>
   (lower p \<in> {''g'', ''gemini''} \<longrightarrow> from_prefix p = Inr GEMINI) \<and>
   (lower p \<in> {''q'', ''groq''} \<longrightarrow> from_prefix p = Inr GROQ) \<and>
   (lower p \<in> {''d'', ''deepseek''} \<longrightarrow> from_prefix p = Inr DEEPSEEK) \<and>
   (lower p \<in> {''l'', ''ollama''} \<longrightarrow> from_prefix p = Inr OLLAMA) \<and>
   (lower p = lower q \<longrightarrow> (from_prefix p = Inr prov \<longleftrightarrow> from_prefix q = Inr prov)) \<and>
   (lower p \<notin> {''o'', ''openai'', ''a'', ''anthropic'', ''g'', ''gemini'',
                ''q'', ''groq'', ''d'', ''deepseek'', ''l'', ''ollama''}
      \<longrightarrow> from_prefix p = Inl (Exn ValueError (''Unknown provider prefix: '' @ p)))"
proof -
  have same: "lower p = lower q \<longrightarrow> (from_prefix p = Inr prov \<longleftrightarrow> from_prefix q = Inr prov)"
    by (simp add: from_prefix_def split: option.splits)
  have known:
    "lower p \<in> {''o'', ''openai''} \<longrightarrow> from_prefix p = Inr OPENAI"
    "lower p \<in> {''a'', ''anthropic''} \<longrightarrow> from_prefix p = Inr ANTHROPIC"
    "lower p \<in> {''g'', ''gemini''} \<longrightarrow> from_prefix p = Inr GEMINI"
    "lower p \<in> {''q'', ''groq''} \<longrightarrow> from_prefix p = Inr GROQ"
    "lower p \<in> {''d'', ''deepseek''} \<longrightarrow> from_prefix p = Inr DEEPSEEK"
    "lower p \<in> {''l'', ''ollama''} \<longrightarrow> from_prefix p = Inr OLLAMA"
    by (auto simp: from_prefix_def prefix_map_def)
  have unknown:
    "lower p \<notin> {''o'', ''openai'', ''a'', ''anthropic'', ''g'', ''gemini'',
                ''q'', ''groq'', ''d'', ''deepseek'', ''l'', ''ollama''}
      \<longrightarrow> from_prefix p = Inl (Exn ValueError (''Unknown provider prefix: '' @ p))"
    by (simp add: from_prefix_def prefix_map_def)
  from known same unknown show ?thesis by blast
qed

text \<open>\<open>OpenAI\<close>, \<open>A\<close> and \<open>DeepSeek\<close> resolve; \<open>x\<close> and the empty prefix do not.\<close>

theorem from_prefix_table_witness:
  "lower ''OpenAI'' \<in> {''o'', ''openai''} \<and> from_prefix ''OpenAI'' = Inr OPENAI \<and>
   lower ''A'' \<in> {''a'', ''anthropic''} \<and> from_prefix ''A'' = Inr ANTHROPIC \<and>
   lower ''GEMINI'' = lower ''gemini'' \<and>
   (from_prefix ''GEMINI'' = Inr GEMINI \<longleftrightarrow> from_prefix ''gemini'' = Inr GEMINI) \<and>
   lower ''x'' \<notin> {''o'', ''openai'', ''a'', ''anthropic'', ''g'', ''gemini'',
                   ''q'', ''groq'', ''d'', ''deepseek'', ''l'', ''ollama''} \<and>
   from_prefix ''x'' = Inl (Exn ValueError ''Unknown provider prefix: x'')"
proof -
  have l1: "lower ''OpenAI'' = ''openai''" by code_simp
  have l2: "lower ''A'' = ''a''" by code_simp
  have l3: "lower ''GEMINI'' = lower ''gemini''" by code_simp
  have l4: "lower ''x'' = ''x''" by code_simp
  show ?thesis
    using from_prefix_table [of "''OpenAI''" "''OpenAI''" OPENAI]
      from_prefix_table [of "''A''" "''A''" ANTHROPIC]
      from_prefix_table [of "''GEMINI''" "''gemini''" GEMINI]
      from_prefix_table [of "''x''" "''x''" OPENAI]
    unfolding l1 l2 l3 l4 by simp
qed



text \<open>
  C10. The Anthropic adapter's \<open>list_models\<close> takes nothing from the vendor: in every
  world it returns the same list of seven model names, in the same order, it never raises,
  and it leaves the world as it was (no vendor call, no wait).
\<close>

theorem anthropic_list_models_constant:
  "\<exists>xs. anthropic_list_models w = Finished (Inr (Models xs)) w \<and>
      xs = [''claude-3-opus-20240229'', ''claude-3-sonnet-20240229'', ''claude-3-haiku-20240307'',
            ''claude-3-7-sonnet-20250219'', ''claude-2.1'', ''claude-2.0'', ''claude-instant-1.2''] \<and>
      length xs = 7"
  by (simp add: anthropic_list_models_def)


section \<open>The claims about \<open>generate\<close>\<close>

text \<open>
  C1 (the code departs from the claim). The claim: when every vendor call fails with a
  generic API error, \<open>generate\<close> raises after exactly 4 attempts. The code: the vendor
  below fails every call with such an error, and for every number \<open>n\<close> of \<open>generate\<close>
  calls entered, each of the three adapters has sent \<open>n\<close> requests, has waited \<open>n\<close>
  times for one second, and is about to enter \<open>generate\<close> again; no number of attempts
  ends the call. \<open>_handle_error\<close> compares \<open>retry_count\<close> with \<open>max_retries = 3\<close>,
  but retries through \<open>generate\<close>, which passes \<open>retry_count=0\<close> anew.
\<close>

theorem generate_api_error_retries_without_bound:
  "anthropic_generate n (\<lambda>k q. Raises (Exn APIError ''Internal server error''))
       ''Test prompt'' ''claude-3-sonnet-20240229'' world0
     = Running \<lparr>requests = replicate n
                   \<lparr>a_model = ''claude-3-sonnet-20240229'', a_max_tokens = 1024,
                    a_messages = [(''user'', ''Test prompt'')], a_thinking_tokens = None\<rparr>,
                 sleeps = replicate n 1, list_calls = 0\<rparr> \<and>
   openai_generate n (\<lambda>k q. Raises (Exn APIError ''Internal server error''))
       ''Test prompt'' ''gpt-4'' world0
     = Running \<lparr>requests = replicate n (openai_request ''Test prompt'' ''gpt-4''),
                 sleeps = replicate n 1, list_calls = 0\<rparr> \<and>
   gemini_generate n (\<lambda>k q. Raises (Exn OtherException ''Internal server error''))
       ''Test prompt'' ''gemini-pro'' world0
     = Running \<lparr>requests = replicate n (gemini_request ''Test prompt'' ''gemini-pro''),
                 sleeps = replicate n 1, list_calls = 0\<rparr>"
proof -
  have q: "\<not> contains (lower (msg (Exn OtherException ''Internal server error''))) ''quota''"
    by code_simp
  have a: "\<not> contains (lower (msg (Exn OtherException ''Internal server error''))) ''authentication''"
    by code_simp
  have k: "\<not> contains (lower (msg (Exn OtherException ''Internal server error''))) ''api key''"
    by code_simp
  have "anthropic_generate n (\<lambda>k q. Raises (Exn APIError ''Internal server error''))
       ''Test prompt'' ''claude-3-sonnet-20240229'' world0
     = Running \<lparr>requests = replicate n
                   \<lparr>a_model = ''claude-3-sonnet-20240229'', a_max_tokens = 1024,
                    a_messages = [(''user'', ''Test prompt'')], a_thinking_tokens = None\<rparr>,
                 sleeps = replicate n 1, list_calls = 0\<rparr>"
    by (subst anthropic_retries_forever
          [where e = "Exn APIError ''Internal server error''"
             and params = "\<lparr>a_model = ''claude-3-sonnet-20240229'', a_max_tokens = 1024,
                    a_messages = [(''user'', ''Test prompt'')], a_thinking_tokens = None\<rparr>"])
       (simp_all add: world0_def message_params_plain)
  moreover have "openai_generate n (\<lambda>k q. Raises (Exn APIError ''Internal server error''))
       ''Test prompt'' ''gpt-4'' world0
     = Running \<lparr>requests = replicate n (openai_request ''Test prompt'' ''gpt-4''),
                 sleeps = replicate n 1, list_calls = 0\<rparr>"
    by (subst openai_retries_forever [where e = "Exn APIError ''Internal server error''"])
       (simp_all add: world0_def)
  moreover have "gemini_generate n (\<lambda>k q. Raises (Exn OtherException ''Internal server error''))
       ''Test prompt'' ''gemini-pro'' world0
     = Running \<lparr>requests = replicate n (gemini_request ''Test prompt'' ''gemini-pro''),
                 sleeps = replicate n 1, list_calls = 0\<rparr>"
    using q a k
    by (subst gemini_retries_forever [where e = "Exn OtherException ''Internal server error''"])
       (simp_all add: world0_def)
  ultimately show ?thesis by blast
qed

text \<open>
  C8. Whenever \<open>generate\<close> returns, in any of the three adapters, after any number of
  retries, what it returns is a \<open>PromptResponse\<close> whose \<open>model\<close> is the model string
  that was passed in, as it was passed in. And it does return: when the vendor call
  returns a response with a text in it (a first content block, a first choice, a
  \<open>text\<close> or a first candidate part), \<open>generate\<close> returns that text under the model
  string as passed in, after that one request.
\<close>

theorem generate_response_model:
  "(anthropic_generate n va prompt model wa = Finished (Inr val) wa'
      \<longrightarrow> (\<exists>r. val = Response r \<and> pr_model r = model)) \<and>
   (message_params prompt model = Inr params
      \<and> va (length (requests wa)) params = Returns aresp \<and> a_content aresp = t # ts \<longrightarrow>
      anthropic_generate (Suc n) va prompt model wa
        = Finished
            (Inr (Response \<lparr>pr_model = model, pr_content = t,
                            pr_tokens = map_option (\<lambda>(i, out). i + out) (a_usage aresp)\<rparr>))
            (wa\<lparr>requests := requests wa @ [params]\<rparr>)) \<and>
   (openai_generate n vo prompt model wo = Finished (Inr val) wo'
      \<longrightarrow> (\<exists>r. val = Response r \<and> pr_model r = model)) \<and>
   (vo (length (requests wo)) (openai_request prompt model) = Returns oresp
      \<and> o_choices oresp = t # ts \<longrightarrow>
      openai_generate (Suc n) vo prompt model wo
        = Finished
            (Inr (Response \<lparr>pr_model = model, pr_content = t, pr_tokens = o_usage oresp\<rparr>))
            (wo\<lparr>requests := requests wo @ [openai_request prompt model]\<rparr>)) \<and>
   (gemini_generate n vg prompt model wg = Finished (Inr val) wg'
      \<longrightarrow> (\<exists>r. val = Response r \<and> pr_model r = model)) \<and>
   (vg (length (requests wg)) (gemini_request prompt model) = Returns gresp
      \<and> response_content gresp = Inr t \<longrightarrow>
      gemini_generate (Suc n) vg prompt model wg
        = Finished
            (Inr (Response \<lparr>pr_model = model, pr_content = t,
                            pr_tokens = g_usage_metadata gresp\<rparr>))
            (wg\<lparr>requests := requests wg @ [gemini_request prompt model]\<rparr>))"
proof (intro conjI impI)
  assume "anthropic_generate n va prompt model wa = Finished (Inr val) wa'"
  then show "\<exists>r. val = Response r \<and> pr_model r = model" by (rule anthropic_generate_model)
next
  assume "message_params prompt model = Inr params
      \<and> va (length (requests wa)) params = Returns aresp \<and> a_content aresp = t # ts"
  then show "anthropic_generate (Suc n) va prompt model wa
        = Finished
            (Inr (Response \<lparr>pr_model = model, pr_content = t,
                            pr_tokens = map_option (\<lambda>(i, out). i + out) (a_usage aresp)\<rparr>))
            (wa\<lparr>requests := requests wa @ [params]\<rparr>)"
    by (intro anthropic_generate_success) blast+
next
  assume "openai_generate n vo prompt model wo = Finished (Inr val) wo'"
  then show "\<exists>r. val = Response r \<and> pr_model r = model" by (rule openai_generate_model)
next
  assume "vo (length (requests wo)) (openai_request prompt model) = Returns oresp
      \<and> o_choices oresp = t # ts"
  then show "openai_generate (Suc n) vo prompt model wo
        = Finished
            (Inr (Response \<lparr>pr_model = model, pr_content = t, pr_tokens = o_usage oresp\<rparr>))
            (wo\<lparr>requests := requests wo @ [openai_request prompt model]\<rparr>)"
    by (intro openai_generate_success) blast+
next
  assume "gemini_generate n vg prompt model wg = Finished (Inr val) wg'"
  then show "\<exists>r. val = Response r \<and> pr_model r = model" by (rule gemini_generate_model)
next
  assume "vg (length (requests wg)) (gemini_request prompt model) = Returns gresp
      \<and> response_content gresp = Inr t"
  then show "gemini_generate (Suc n) vg prompt model wg
        = Finished
            (Inr (Response \<lparr>pr_model = model, pr_content = t,
                            pr_tokens = g_usage_metadata gresp\<rparr>))
            (wg\<lparr>requests := requests wg @ [gemini_request prompt model]\<rparr>)"
    by (intro gemini_generate_success) blast+
qed

text \<open>
  Each adapter on a model string with an option suffix and a vendor that returns a
  response at its first call: the call returns, the response names the string with
  its suffix, and the world shows what the vendor received (the base name and the
  budget on Anthropic, the string as given on OpenAI and Gemini).
\<close>

theorem generate_response_model_witness:
  "anthropic_generate (Suc 0)
     (\<lambda>k q. Returns \<lparr>a_content = [''Test response''], a_usage = Some (10, 20)\<rparr>)
     ''Test prompt'' ''claude-3-sonnet-20240229:4k'' world0
   = Finished
       (Inr (Response \<lparr>pr_model = ''claude-3-sonnet-20240229:4k'', pr_content = ''Test response'',
                       pr_tokens = Some 30\<rparr>))
       \<lparr>requests = [\<lparr>a_model = ''claude-3-sonnet-20240229'', a_max_tokens = 1024,
                     a_messages = [(''user'', ''Test prompt'')], a_thinking_tokens = Some 4096\<rparr>],
        sleeps = [], list_calls = 0\<rparr> \<and>
   (\<exists>r. Response \<lparr>pr_model = ''claude-3-sonnet-20240229:4k'', pr_content = ''Test response'',
                    pr_tokens = Some 30\<rparr> = Response r
        \<and> pr_model r = ''claude-3-sonnet-20240229:4k'') \<and>
   openai_generate (Suc 0)
     (\<lambda>k q. Returns \<lparr>o_choices = [''Test response''], o_usage = Some 30\<rparr>)
     ''Test prompt'' ''gpt-4:4k'' world0
   = Finished
       (Inr (Response \<lparr>pr_model = ''gpt-4:4k'', pr_content = ''Test response'',
                       pr_tokens = Some 30\<rparr>))
       \<lparr>requests = [ChatCompletionsCreate ''gpt-4:4k'' [(''user'', ''Test prompt'')] (7 / 10) 1024],
        sleeps = [], list_calls = 0\<rparr> \<and>
   (\<exists>r. Response \<lparr>pr_model = ''gpt-4:4k'', pr_content = ''Test response'',
                    pr_tokens = Some 30\<rparr> = Response r
        \<and> pr_model r = ''gpt-4:4k'') \<and>
   gemini_generate (Suc 0)
     (\<lambda>k q. Returns \<lparr>g_text = Some ''Test response'', g_usage_metadata = Some 42,
                      g_candidates = [], g_str = ''response''\<rparr>)
     ''Test prompt'' ''gemini-pro:4k'' world0
   = Finished
       (Inr (Response \<lparr>pr_model = ''gemini-pro:4k'', pr_content = ''Test response'',
                       pr_tokens = Some 42\<rparr>))
       \<lparr>requests = [gemini_request ''Test prompt'' ''gemini-pro:4k''],
        sleeps = [], list_calls = 0\<rparr> \<and>
   (\<exists>r. Response \<lparr>pr_model = ''gemini-pro:4k'', pr_content = ''Test response'',
                    pr_tokens = Some 42\<rparr> = Response r
        \<and> pr_model r = ''gemini-pro:4k'')"
proof -
  note a_ret = generate_response_model [THEN conjunct1, THEN mp]
  note a_run = generate_response_model [THEN conjunct2, THEN conjunct1, THEN mp]
  note o_ret = generate_response_model [THEN conjunct2, THEN conjunct2, THEN conjunct1, THEN mp]
  note o_run = generate_response_model
    [THEN conjunct2, THEN conjunct2, THEN conjunct2, THEN conjunct1, THEN mp]
  note g_ret = generate_response_model
    [THEN conjunct2, THEN conjunct2, THEN conjunct2, THEN conjunct2, THEN conjunct1, THEN mp]
  note g_run = generate_response_model
    [THEN conjunct2, THEN conjunct2, THEN conjunct2, THEN conjunct2, THEN conjunct2, THEN mp]
  let ?ar = "\<lparr>a_content = [''Test response''], a_usage = Some (10, 20)\<rparr>"
  let ?ap = "\<lparr>a_model = ''claude-3-sonnet-20240229'', a_max_tokens = 1024,
               a_messages = [(''user'', ''Test prompt'')], a_thinking_tokens = Some (4096::int)\<rparr>"
  let ?or = "\<lparr>o_choices = [''Test response''], o_usage = Some 30\<rparr>"
  let ?gr = "\<lparr>g_text = Some ''Test response'', g_usage_metadata = Some 42,
               g_candidates = [], g_str = ''response''\<rparr>"
  have mp: "message_params ''Test prompt'' ''claude-3-sonnet-20240229:4k'' = Inr ?ap"
    by code_simp
  have oq: "openai_request ''Test prompt'' ''gpt-4:4k''
    = ChatCompletionsCreate ''gpt-4:4k'' [(''user'', ''Test prompt'')] (7 / 10) 1024"
    by (simp add: openai_request_def startswith_def)
  have a: "anthropic_generate (Suc 0) (\<lambda>k q. Returns ?ar)
     ''Test prompt'' ''claude-3-sonnet-20240229:4k'' world0
   = Finished
       (Inr (Response \<lparr>pr_model = ''claude-3-sonnet-20240229:4k'', pr_content = ''Test response'',
                       pr_tokens = Some 30\<rparr>))
       \<lparr>requests = [?ap], sleeps = [], list_calls = 0\<rparr>"
    using a_run [of "''Test prompt''" "''claude-3-sonnet-20240229:4k''" ?ap "\<lambda>k q. Returns ?ar"
        world0 ?ar "''Test response''" "[]" 0] mp
    by (simp add: world0_def)
  have o: "openai_generate (Suc 0) (\<lambda>k q. Returns ?or) ''Test prompt'' ''gpt-4:4k'' world0
   = Finished
       (Inr (Response \<lparr>pr_model = ''gpt-4:4k'', pr_content = ''Test response'',
                       pr_tokens = Some 30\<rparr>))
       \<lparr>requests = [ChatCompletionsCreate ''gpt-4:4k'' [(''user'', ''Test prompt'')] (7 / 10) 1024],
        sleeps = [], list_calls = 0\<rparr>"
    using o_run [of "\<lambda>k q. Returns ?or" world0 "''Test prompt''" "''gpt-4:4k''" ?or
        "''Test response''" "[]" 0]
    by (simp add: world0_def oq)
  have g: "gemini_generate (Suc 0) (\<lambda>k q. Returns ?gr) ''Test prompt'' ''gemini-pro:4k'' world0
   = Finished
       (Inr (Response \<lparr>pr_model = ''gemini-pro:4k'', pr_content = ''Test response'',
                       pr_tokens = Some 42\<rparr>))
       \<lparr>requests = [gemini_request ''Test prompt'' ''gemini-pro:4k''],
        sleeps = [], list_calls = 0\<rparr>"
    using g_run [of "\<lambda>k q. Returns ?gr" world0 "''Test prompt''" "''gemini-pro:4k''" ?gr
        "''Test response''" 0]
    by (simp add: world0_def response_content_def)
  from a a_ret [OF a] o o_ret [OF o] g g_ret [OF g] show ?thesis by (intro conjI)
qed

text \<open>
  C2 (corrected). Only the Anthropic adapter parses the model string. When the parser
  returns a base name and a non-zero number of tokens, every request the Anthropic adapter
  sends carries the base name as \<open>model\<close> and that number as \<open>thinking_tokens\<close>.
  The OpenAI and Gemini adapters have no parser: every request they send carries the
  model string as it was given, and no reasoning budget. In each adapter, a call that
  enters \<open>generate\<close> sends at least one request, and at most as many as the fuel.
\<close>

theorem generate_vendor_receives:
  "(parse_model_with_thinking_tokens model = Inr (base, Some t) \<and> t \<noteq> 0 \<longrightarrow>
      (\<exists>k\<le>n. (0 < n \<longrightarrow> 0 < k) \<and>
         requests (run_world (anthropic_generate n va prompt model wa))
           = requests wa @ replicate k
               \<lparr>a_model = base, a_max_tokens = 1024, a_messages = [(''user'', prompt)],
                a_thinking_tokens = Some t\<rparr>)) \<and>
   (\<exists>k\<le>n. (0 < n \<longrightarrow> 0 < k) \<and>
      requests (run_world (openai_generate n vo prompt model wo))
        = requests wo @ replicate k
            (if startswith model ''gpt-''
             then ChatCompletionsCreate model [(''user'', prompt)] (7 / 10) 1024
             else CompletionsCreate model prompt (7 / 10) 1024)) \<and>
   (\<exists>k\<le>n. (0 < n \<longrightarrow> 0 < k) \<and>
      requests (run_world (gemini_generate n vg prompt model wg))
        = requests wg @ replicate k
            \<lparr>g_model_name = model,
             g_generation_config =
               \<lparr>temperature = 7 / 10, top_p = 95 / 100, top_k = 40, max_output_tokens = 2048\<rparr>,
             g_prompt = prompt\<rparr>)"
proof (intro conjI impI)
  assume "parse_model_with_thinking_tokens model = Inr (base, Some t) \<and> t \<noteq> 0"
  then have "message_params prompt model
    = Inr \<lparr>a_model = base, a_max_tokens = 1024, a_messages = [(''user'', prompt)],
           a_thinking_tokens = Some t\<rparr>"
    by (simp add: message_params_def)
  from anthropic_generate_requests [OF this, of n va wa]
  show "\<exists>k\<le>n. (0 < n \<longrightarrow> 0 < k) \<and>
         requests (run_world (anthropic_generate n va prompt model wa))
           = requests wa @ replicate k
               \<lparr>a_model = base, a_max_tokens = 1024, a_messages = [(''user'', prompt)],
                a_thinking_tokens = Some t\<rparr>" .
next
  from openai_generate_requests [of n vo prompt model wo]
  show "\<exists>k\<le>n. (0 < n \<longrightarrow> 0 < k) \<and>
      requests (run_world (openai_generate n vo prompt model wo))
        = requests wo @ replicate k
            (if startswith model ''gpt-''
             then ChatCompletionsCreate model [(''user'', prompt)] (7 / 10) 1024
             else CompletionsCreate model prompt (7 / 10) 1024)"
    by (simp only: openai_request_def)
next
  from gemini_generate_requests [of n vg prompt model wg]
  show "\<exists>k\<le>n. (0 < n \<longrightarrow> 0 < k) \<and>
      requests (run_world (gemini_generate n vg prompt model wg))
        = requests wg @ replicate k
            \<lparr>g_model_name = model,
             g_generation_config =
               \<lparr>temperature = 7 / 10, top_p = 95 / 100, top_k = 40, max_output_tokens = 2048\<rparr>,
             g_prompt = prompt\<rparr>"
    by (simp only: gemini_request_def)
qed

text \<open>
  The specification's scenario on the Anthropic adapter, with a vendor stub that echoes
  the model name it receives: the one request has \<open>model = base-model\<close> and a budget
  of 4096.
\<close>

theorem generate_vendor_receives_witness:
  "parse_model_with_thinking_tokens ''base-model:4k'' = Inr (''base-model'', Some 4096) \<and>
   (4096 :: int) \<noteq> 0 \<and>
   requests (run_world
     (anthropic_generate 1 (\<lambda>k q. Returns \<lparr>a_content = [a_model q], a_usage = None\<rparr>)
        ''Explain recursion'' ''base-model:4k'' world0))
   = [\<lparr>a_model = ''base-model'', a_max_tokens = 1024,
       a_messages = [(''user'', ''Explain recursion'')], a_thinking_tokens = Some 4096\<rparr>]"
proof -
  let ?v = "\<lambda>(k::nat) q. Returns \<lparr>a_content = [a_model q], a_usage = None\<rparr>"
  let ?r = "\<lparr>a_model = ''base-model'', a_max_tokens = 1024,
       a_messages = [(''user'', ''Explain recursion'')], a_thinking_tokens = Some (4096::int)\<rparr>"
  have p: "parse_model_with_thinking_tokens ''base-model:4k'' = Inr (''base-model'', Some 4096)"
    by code_simp
  have nz: "(4096 :: int) \<noteq> 0" by simp
  from generate_vendor_receives [THEN conjunct1, THEN mp, OF conjI [OF p nz],
      of 1 ?v "''Explain recursion''" world0]
  obtain k where k: "k \<le> 1" "0 < k"
    and r: "requests (run_world (anthropic_generate 1 ?v ''Explain recursion'' ''base-model:4k'' world0))
           = requests world0 @ replicate k ?r"
    by auto
  from k have "k = 1" by simp
  with r have "requests (run_world (anthropic_generate 1 ?v ''Explain recursion'' ''base-model:4k'' world0))
           = [?r]"
    by (simp add: world0_def)
  with p nz show ?thesis by blast
qed

text \<open>
  C2 as stated fails on the OpenAI adapter: in the specification's scenario the vendor
  receives the model name \<open>base-model:4k\<close>, suffix included, and no reasoning budget,
  and the response names the same string.
\<close>

theorem openai_generate_sends_raw_model_counterexample:
  "openai_generate 1 (\<lambda>k q. Returns \<lparr>o_choices = [o_model q], o_usage = None\<rparr>)
     ''Explain recursion'' ''base-model:4k'' world0
   = Finished
       (Inr (Response \<lparr>pr_model = ''base-model:4k'', pr_content = ''base-model:4k'',
                       pr_tokens = None\<rparr>))
       \<lparr>requests = [CompletionsCreate ''base-model:4k'' ''Explain recursion'' (7 / 10) 1024],
        sleeps = [], list_calls = 0\<rparr>"
proof -
  have r: "openai_request ''Explain recursion'' ''base-model:4k''
    = CompletionsCreate ''base-model:4k'' ''Explain recursion'' (7 / 10) 1024"
    by (simp add: openai_request_def startswith_def)
  show ?thesis
    unfolding One_nat_def
    by (subst openai_generate_success
          [where resp = "\<lparr>o_choices = [''base-model:4k''], o_usage = None\<rparr>"
             and t = "''base-model:4k''" and ts = "[]"])
       (simp_all add: r world0_def)
qed


text \<open>
  C5 (corrected). In every world, that is after any number of earlier attempts, and for
  every retry count: when the vendor call fails with an authentication cause,
  \<open>generate\<close> raises the adapter's invalid-key error at once, with exactly one more
  request sent and no wait, and \<open>_handle_error\<close> raises it whatever the retry count.
  The authentication cause is the vendor library's \<open>AuthenticationError\<close> for the
  Anthropic and OpenAI adapters; for the Gemini adapter it is a message that contains
  \<open>authentication\<close> or \<open>api key\<close> (in any letter case) and does not contain
  \<open>quota\<close>: the quota rule is tried first.
\<close>

theorem auth_error_never_retried:
  "(message_params prompt model = Inr params
      \<and> va (length (requests wa)) params = Raises e
      \<and> cls e = AuthenticationError \<longrightarrow>
      anthropic_generate (Suc n) va prompt model wa
        = Finished (Inl (Exn ValueError (''Anthropic API key is invalid: '' @ msg e)))
            (wa\<lparr>requests := requests wa @ [params]\<rparr>)) \<and>
   (cls e = AuthenticationError \<longrightarrow>
      anthropic_handle_error n va e retry_count kw_prompt kw_model wa
        = Finished (Inl (Exn ValueError (''Anthropic API key is invalid: '' @ msg e))) wa) \<and>
   (vo (length (requests wo)) (openai_request prompt model) = Raises e
      \<and> cls e = AuthenticationError \<longrightarrow>
      openai_generate (Suc n) vo prompt model wo
        = Finished (Inl (Exn ValueError (''OpenAI API key is invalid: '' @ msg e)))
            (wo\<lparr>requests := requests wo @ [openai_request prompt model]\<rparr>)) \<and>
   (cls e = AuthenticationError \<longrightarrow>
      openai_handle_error n vo e retry_count kw_prompt kw_model wo
        = Finished (Inl (Exn ValueError (''OpenAI API key is invalid: '' @ msg e))) wo) \<and>
   (vg (length (requests wg)) (gemini_request prompt model) = Raises e
      \<and> \<not> contains (lower (msg e)) ''quota''
      \<and> (contains (lower (msg e)) ''authentication'' \<or> contains (lower (msg e)) ''api key'') \<longrightarrow>
      gemini_generate (Suc n) vg prompt model wg
        = Finished (Inl (Exn ValueError (''Google Gemini API key is invalid: '' @ msg e)))
            (wg\<lparr>requests := requests wg @ [gemini_request prompt model]\<rparr>)) \<and>
   (\<not> contains (lower (msg e)) ''quota''
      \<and> (contains (lower (msg e)) ''authentication'' \<or> contains (lower (msg e)) ''api key'') \<longrightarrow>
      gemini_handle_error n vg e retry_count kw_prompt kw_model wg
        = Finished (Inl (Exn ValueError (''Google Gemini API key is invalid: '' @ msg e))) wg)"
proof (intro conjI impI)
  assume "message_params prompt model = Inr params
      \<and> va (length (requests wa)) params = Raises e
      \<and> cls e = AuthenticationError"
  then show "anthropic_generate (Suc n) va prompt model wa
        = Finished (Inl (Exn ValueError (''Anthropic API key is invalid: '' @ msg e)))
            (wa\<lparr>requests := requests wa @ [params]\<rparr>)"
    by (intro anthropic_auth_error) simp_all
next
  assume "cls e = AuthenticationError"
  then show "anthropic_handle_error n va e retry_count kw_prompt kw_model wa
        = Finished (Inl (Exn ValueError (''Anthropic API key is invalid: '' @ msg e))) wa"
    by (simp add: anthropic_handle_error.simps)
next
  assume "vo (length (requests wo)) (openai_request prompt model) = Raises e
      \<and> cls e = AuthenticationError"
  then show "openai_generate (Suc n) vo prompt model wo
        = Finished (Inl (Exn ValueError (''OpenAI API key is invalid: '' @ msg e)))
            (wo\<lparr>requests := requests wo @ [openai_request prompt model]\<rparr>)"
    by (intro openai_auth_error) simp_all
next
  assume "cls e = AuthenticationError"
  then show "openai_handle_error n vo e retry_count kw_prompt kw_model wo
        = Finished (Inl (Exn ValueError (''OpenAI API key is invalid: '' @ msg e))) wo"
    by (simp add: openai_handle_error.simps)
next
  assume "vg (length (requests wg)) (gemini_request prompt model) = Raises e
      \<and> \<not> contains (lower (msg e)) ''quota''
      \<and> (contains (lower (msg e)) ''authentication'' \<or> contains (lower (msg e)) ''api key'')"
  then show "gemini_generate (Suc n) vg prompt model wg
        = Finished (Inl (Exn ValueError (''Google Gemini API key is invalid: '' @ msg e)))
            (wg\<lparr>requests := requests wg @ [gemini_request prompt model]\<rparr>)"
    by (intro gemini_auth_error) simp_all
next
  assume "\<not> contains (lower (msg e)) ''quota''
      \<and> (contains (lower (msg e)) ''authentication'' \<or> contains (lower (msg e)) ''api key'')"
  then show "gemini_handle_error n vg e retry_count kw_prompt kw_model wg
        = Finished (Inl (Exn ValueError (''Google Gemini API key is invalid: '' @ msg e))) wg"
    by (simp add: gemini_handle_error.simps)
qed

text \<open>
  The authentication tests of the repository: the Anthropic stub raises an
  \<open>AuthenticationError\<close>, the Gemini stub an exception with the message
  \<open>Invalid API key\<close>. One request, no wait, an invalid-key error.
\<close>

theorem auth_error_never_retried_witness:
  "anthropic_generate (Suc 0) (\<lambda>k q. Raises (Exn AuthenticationError ''Invalid API key''))
       ''Test prompt'' ''claude-3-sonnet-20240229'' world0
     = Finished (Inl (Exn ValueError ''Anthropic API key is invalid: Invalid API key''))
         \<lparr>requests = [\<lparr>a_model = ''claude-3-sonnet-20240229'', a_max_tokens = 1024,
                       a_messages = [(''user'', ''Test prompt'')], a_thinking_tokens = None\<rparr>],
          sleeps = [], list_calls = 0\<rparr> \<and>
   contains (lower ''Invalid API key'') ''api key'' \<and>
   \<not> contains (lower ''Invalid API key'') ''quota'' \<and>
   gemini_generate (Suc 0) (\<lambda>k q. Raises (Exn OtherException ''Invalid API key''))
       ''Test prompt'' ''gemini-pro'' world0
     = Finished (Inl (Exn ValueError ''Google Gemini API key is invalid: Invalid API key''))
         \<lparr>requests = [gemini_request ''Test prompt'' ''gemini-pro''],
          sleeps = [], list_calls = 0\<rparr>"
proof -
  let ?ea = "Exn AuthenticationError ''Invalid API key''"
  let ?eg = "Exn OtherException ''Invalid API key''"
  have k: "contains (lower ''Invalid API key'') ''api key''" by code_simp
  have q: "\<not> contains (lower ''Invalid API key'') ''quota''" by code_simp
  let ?ap = "\<lparr>a_model = ''claude-3-sonnet-20240229'', a_max_tokens = 1024,
               a_messages = [(''user'', ''Test prompt'')], a_thinking_tokens = None\<rparr>"
  have a: "anthropic_generate (Suc 0) (\<lambda>k q. Raises ?ea)
       ''Test prompt'' ''claude-3-sonnet-20240229'' world0
     = Finished (Inl (Exn ValueError (''Anthropic API key is invalid: '' @ msg ?ea)))
         (world0\<lparr>requests := requests world0 @ [?ap]\<rparr>)"
    by (rule auth_error_never_retried [THEN conjunct1, THEN mp])
       (simp add: message_params_plain)
  have g: "gemini_generate (Suc 0) (\<lambda>k q. Raises ?eg)
       ''Test prompt'' ''gemini-pro'' world0
     = Finished (Inl (Exn ValueError (''Google Gemini API key is invalid: '' @ msg ?eg)))
         (world0\<lparr>requests := requests world0 @ [gemini_request ''Test prompt'' ''gemini-pro'']\<rparr>)"
    using k q
    by (intro auth_error_never_retried
          [THEN conjunct2, THEN conjunct2, THEN conjunct2, THEN conjunct2, THEN conjunct1, THEN mp])
       simp
  from a g k q show ?thesis by (simp add: world0_def)
qed

text \<open>
  C5 as stated fails on the Gemini adapter for a message that names both a quota and an
  API key, the message of the repository's quota test: it contains \<open>api key\<close>, yet the
  call waits one second and is retried, here with success on the second vendor call.
\<close>

theorem gemini_quota_before_api_key_counterexample:
  "contains (lower ''Quota exceeded for this API key'') ''api key'' \<and>
   gemini_generate 2
     (\<lambda>k q. if k = 0 then Raises (Exn OtherException ''Quota exceeded for this API key'')
             else Returns \<lparr>g_text = Some ''Retry response'', g_usage_metadata = None,
                            g_candidates = [], g_str = ''response''\<rparr>)
     ''Test prompt'' ''gemini-pro'' world0
   = Finished
       (Inr (Response \<lparr>pr_model = ''gemini-pro'', pr_content = ''Retry response'',
                       pr_tokens = None\<rparr>))
       \<lparr>requests = [gemini_request ''Test prompt'' ''gemini-pro'',
                    gemini_request ''Test prompt'' ''gemini-pro''],
        sleeps = [1], list_calls = 0\<rparr>"
proof -
  let ?e = "Exn OtherException ''Quota exceeded for this API key''"
  let ?resp = "\<lparr>g_text = Some ''Retry response'', g_usage_metadata = None,
                 g_candidates = [], g_str = ''response''\<rparr>"
  let ?v = "\<lambda>k q. if k = (0::nat) then Raises ?e else Returns ?resp"
  let ?r = "gemini_request ''Test prompt'' ''gemini-pro''"
  have k: "contains (lower ''Quota exceeded for this API key'') ''api key''" by code_simp
  have q: "contains (lower (msg ?e)) ''quota''" by code_simp
  have "gemini_generate (Suc (Suc 0)) ?v ''Test prompt'' ''gemini-pro'' world0
    = gemini_generate (Suc 0) ?v ''Test prompt'' ''gemini-pro''
        \<lparr>requests = [?r], sleeps = [1], list_calls = 0\<rparr>"
    using q by (subst gemini_quota_retry [where e = ?e]) (simp_all add: world0_def)
  also have "\<dots> = Finished
       (Inr (Response \<lparr>pr_model = ''gemini-pro'', pr_content = ''Retry response'',
                       pr_tokens = None\<rparr>))
       \<lparr>requests = [?r, ?r], sleeps = [1], list_calls = 0\<rparr>"
    by (subst gemini_generate_success [where resp = ?resp and t = "''Retry response''"])
       (simp_all add: response_content_def)
  finally have "gemini_generate 2 ?v ''Test prompt'' ''gemini-pro'' world0
    = Finished
       (Inr (Response \<lparr>pr_model = ''gemini-pro'', pr_content = ''Retry response'',
                       pr_tokens = None\<rparr>))
       \<lparr>requests = [?r, ?r], sleeps = [1], list_calls = 0\<rparr>"
    by (simp only: numeral_2_eq_2)
  with k show ?thesis by (rule conjI)
qed


text \<open>
  C6 (corrected). On the Anthropic and OpenAI adapters, a failure that is not one of the
  vendor library's rate-limit, authentication or API errors makes \<open>generate\<close> raise the
  adapter's \<open>Error occurred when calling\<close> error with exactly one request sent and no
  wait. The Gemini adapter has no such class of failures: it reads only the message, and
  a failure whose message names neither a quota nor an authentication problem is retried
  after a one-second wait when prompt and model are non-empty; it is terminal, after the
  one request, only when the prompt or the model is empty.
\<close>

theorem other_error_terminal:
  "(message_params prompt model = Inr params
      \<and> va (length (requests wa)) params = Raises e
      \<and> cls e \<notin> {RateLimitError, AuthenticationError, APIError} \<longrightarrow>
      anthropic_generate (Suc n) va prompt model wa
        = Finished (Inl (Exn ValueError (''Error occurred when calling Anthropic API: '' @ msg e)))
            (wa\<lparr>requests := requests wa @ [params]\<rparr>)) \<and>
   (vo (length (requests wo)) (openai_request prompt model) = Raises e
      \<and> cls e \<notin> {RateLimitError, AuthenticationError, APIError} \<longrightarrow>
      openai_generate (Suc n) vo prompt model wo
        = Finished (Inl (Exn ValueError (''Error occurred when calling OpenAI API: '' @ msg e)))
            (wo\<lparr>requests := requests wo @ [openai_request prompt model]\<rparr>)) \<and>
   (vg (length (requests wg)) (gemini_request prompt model) = Raises e
      \<and> \<not> contains (lower (msg e)) ''quota''
      \<and> \<not> contains (lower (msg e)) ''authentication''
      \<and> \<not> contains (lower (msg e)) ''api key'' \<longrightarrow>
      gemini_generate (Suc n) vg prompt model wg
        = (if prompt \<noteq> [] \<and> model \<noteq> []
           then gemini_generate n vg prompt model
                  (wg\<lparr>requests := requests wg @ [gemini_request prompt model],
                      sleeps := sleeps wg @ [1]\<rparr>)
           else Finished
                  (Inl (Exn ValueError
                         (''Error occurred when calling Google Gemini API: '' @ msg e)))
                  (wg\<lparr>requests := requests wg @ [gemini_request prompt model]\<rparr>)))"
proof (intro conjI impI)
  assume "message_params prompt model = Inr params
      \<and> va (length (requests wa)) params = Raises e
      \<and> cls e \<notin> {RateLimitError, AuthenticationError, APIError}"
  then show "anthropic_generate (Suc n) va prompt model wa
        = Finished (Inl (Exn ValueError (''Error occurred when calling Anthropic API: '' @ msg e)))
            (wa\<lparr>requests := requests wa @ [params]\<rparr>)"
    by (intro anthropic_other_error) blast+
next
  assume "vo (length (requests wo)) (openai_request prompt model) = Raises e
      \<and> cls e \<notin> {RateLimitError, AuthenticationError, APIError}"
  then show "openai_generate (Suc n) vo prompt model wo
        = Finished (Inl (Exn ValueError (''Error occurred when calling OpenAI API: '' @ msg e)))
            (wo\<lparr>requests := requests wo @ [openai_request prompt model]\<rparr>)"
    by (intro openai_other_error) blast+
next
  assume "vg (length (requests wg)) (gemini_request prompt model) = Raises e
      \<and> \<not> contains (lower (msg e)) ''quota''
      \<and> \<not> contains (lower (msg e)) ''authentication''
      \<and> \<not> contains (lower (msg e)) ''api key''"
  then show "gemini_generate (Suc n) vg prompt model wg
        = (if prompt \<noteq> [] \<and> model \<noteq> []
           then gemini_generate n vg prompt model
                  (wg\<lparr>requests := requests wg @ [gemini_request prompt model],
                      sleeps := sleeps wg @ [1]\<rparr>)
           else Finished
                  (Inl (Exn ValueError
                         (''Error occurred when calling Google Gemini API: '' @ msg e)))
                  (wg\<lparr>requests := requests wg @ [gemini_request prompt model]\<rparr>))"
    by (intro gemini_other_error) blast+
qed

text \<open>
  A connection failure that is not an error of the vendor library, on the Anthropic
  adapter: one request, no wait, the terminal error.
\<close>

theorem other_error_terminal_witness:
  "cls (Exn OtherException ''Connection reset by peer'')
     \<notin> {RateLimitError, AuthenticationError, APIError} \<and>
   anthropic_generate (Suc 0) (\<lambda>k q. Raises (Exn OtherException ''Connection reset by peer''))
       ''Test prompt'' ''claude-3-sonnet-20240229'' world0
     = Finished
         (Inl (Exn ValueError
                ''Error occurred when calling Anthropic API: Connection reset by peer''))
         \<lparr>requests = [\<lparr>a_model = ''claude-3-sonnet-20240229'', a_max_tokens = 1024,
                       a_messages = [(''user'', ''Test prompt'')], a_thinking_tokens = None\<rparr>],
          sleeps = [], list_calls = 0\<rparr>"
proof -
  let ?e = "Exn OtherException ''Connection reset by peer''"
  have c: "cls ?e \<notin> {RateLimitError, AuthenticationError, APIError}" by simp
  let ?ap = "\<lparr>a_model = ''claude-3-sonnet-20240229'', a_max_tokens = 1024,
               a_messages = [(''user'', ''Test prompt'')], a_thinking_tokens = None\<rparr>"
  have "anthropic_generate (Suc 0) (\<lambda>k q. Raises ?e)
       ''Test prompt'' ''claude-3-sonnet-20240229'' world0
     = Finished (Inl (Exn ValueError (''Error occurred when calling Anthropic API: '' @ msg ?e)))
         (world0\<lparr>requests := requests world0 @ [?ap]\<rparr>)"
    by (rule other_error_terminal [THEN conjunct1, THEN mp])
       (simp add: message_params_plain)
  with c show ?thesis by (simp add: world0_def)
qed

text \<open>
  C6 as stated fails on the Gemini adapter: a connection failure, whose message names
  neither a quota nor an authentication problem, is followed by a one-second wait and a
  second vendor call, which here succeeds.
\<close>

theorem gemini_network_error_retried_counterexample:
  "\<not> contains (lower ''Connection reset by peer'') ''quota'' \<and>
   \<not> contains (lower ''Connection reset by peer'') ''authentication'' \<and>
   \<not> contains (lower ''Connection reset by peer'') ''api key'' \<and>
   gemini_generate 2
     (\<lambda>k q. if k = 0 then Raises (Exn OtherException ''Connection reset by peer'')
             else Returns \<lparr>g_text = Some ''Retry response'', g_usage_metadata = None,
                            g_candidates = [], g_str = ''response''\<rparr>)
     ''Test prompt'' ''gemini-pro'' world0
   = Finished
       (Inr (Response \<lparr>pr_model = ''gemini-pro'', pr_content = ''Retry response'',
                       pr_tokens = None\<rparr>))
       \<lparr>requests = [gemini_request ''Test prompt'' ''gemini-pro'',
                    gemini_request ''Test prompt'' ''gemini-pro''],
        sleeps = [1], list_calls = 0\<rparr>"
proof -
  let ?e = "Exn OtherException ''Connection reset by peer''"
  let ?resp = "\<lparr>g_text = Some ''Retry response'', g_usage_metadata = None,
                 g_candidates = [], g_str = ''response''\<rparr>"
  let ?v = "\<lambda>k q. if k = (0::nat) then Raises ?e else Returns ?resp"
  let ?r = "gemini_request ''Test prompt'' ''gemini-pro''"
  have q: "\<not> contains (lower ''Connection reset by peer'') ''quota''" by code_simp
  have a: "\<not> contains (lower ''Connection reset by peer'') ''authentication''" by code_simp
  have k: "\<not> contains (lower ''Connection reset by peer'') ''api key''" by code_simp
  have "gemini_generate (Suc (Suc 0)) ?v ''Test prompt'' ''gemini-pro'' world0
    = gemini_generate (Suc 0) ?v ''Test prompt'' ''gemini-pro''
        \<lparr>requests = [?r], sleeps = [1], list_calls = 0\<rparr>"
    using q a k by (subst gemini_other_error [where e = ?e]) (simp_all add: world0_def)
  also have "\<dots> = Finished
       (Inr (Response \<lparr>pr_model = ''gemini-pro'', pr_content = ''Retry response'',
                       pr_tokens = None\<rparr>))
       \<lparr>requests = [?r, ?r], sleeps = [1], list_calls = 0\<rparr>"
    by (subst gemini_generate_success [where resp = ?resp and t = "''Retry response''"])
       (simp_all add: response_content_def)
  finally have "gemini_generate 2 ?v ''Test prompt'' ''gemini-pro'' world0
    = Finished
       (Inr (Response \<lparr>pr_model = ''gemini-pro'', pr_content = ''Retry response'',
                       pr_tokens = None\<rparr>))
       \<lparr>requests = [?r, ?r], sleeps = [1], list_calls = 0\<rparr>"
    by (simp only: numeral_2_eq_2)
  with q a k show ?thesis by blast
qed


end
